theory Spec2Isabelle
  imports Complex_Main "HOL-Library.Char_ord" "HOL-Library.List_Lexorder"
begin

section \<open>Workout tracker (scripts/workout.py): data model\<close>

text \<open>
  The store is the SQLite database of \<^verbatim>\<open>ensure_schema\<close>: three tables, each held as the
  list of its rows in insertion order. SQL \<^verbatim>\<open>NULL\<close> and Python \<^verbatim>\<open>None\<close> are \<open>None\<close>.
  \<^verbatim>\<open>TEXT\<close> values are strings, compared as SQLite's \<^verbatim>\<open>BINARY\<close> collation and Python's
  \<^verbatim>\<open>str\<close> comparison do (character by character, by code). \<^verbatim>\<open>REAL\<close> values and
  Python floats are modelled as mathematical reals: rounding, infinities and NaN are
  outside the model.
\<close>

definition LB_TO_KG :: real where
  "LB_TO_KG = 45359237 / 100000000"

text \<open>A row of table \<^verbatim>\<open>exercises\<close>; the dataclass \<^verbatim>\<open>Exercise\<close> has the same four fields.\<close>

record Exercise =
  ex_id :: int
  ex_name :: string
  primary_muscle :: "string option"
  secondary_muscles :: "string option"

text \<open>A row of table \<^verbatim>\<open>workouts\<close>.\<close>

record workout_row =
  wk_id :: int
  wk_date :: string
  start_time :: string
  end_time :: "string option"
  wk_notes :: "string option"

text \<open>A row of table \<^verbatim>\<open>sets\<close>.\<close>

record set_row =
  set_id :: int
  workout_id :: int
  exercise_id :: int
  timestamp :: string
  input_weight :: "real option"
  input_unit :: "string option"
  weight_kg :: real
  reps :: int
  rpe :: "real option"
  set_notes :: "string option"

record db =
  exercises :: "Exercise list"
  workouts :: "workout_row list"
  sets :: "set_row list"

text \<open>
  \<^verbatim>\<open>cur.lastrowid\<close> after an \<^verbatim>\<open>INSERT\<close> into a table with an \<^verbatim>\<open>INTEGER PRIMARY KEY\<close>
  and no explicit id: one more than the largest id in the table, 1 for an empty table.
\<close>

definition next_rowid :: "int list \<Rightarrow> int" where
  "next_rowid ids = (case ids of [] \<Rightarrow> 1 | i # rest \<Rightarrow> fold max rest i + 1)"

text \<open>
  \<^verbatim>\<open>ensure_schema\<close> runs \<^verbatim>\<open>CREATE TABLE IF NOT EXISTS\<close> and \<^verbatim>\<open>CREATE INDEX IF NOT EXISTS\<close>:
  it never touches a row.
\<close>

definition ensure_schema :: "db \<Rightarrow> db" where
  "ensure_schema conn = conn"

section \<open>Dates and times\<close>

text \<open>
  \<^verbatim>\<open>datetime.date\<close>, \<^verbatim>\<open>datetime.time\<close> and \<^verbatim>\<open>datetime.datetime\<close> at the precision the
  program uses (\<^verbatim>\<open>isoformat(timespec="seconds")\<close> drops the microseconds).
\<close>

record date =
  year :: nat
  month :: nat
  day :: nat

record time =
  hour :: nat
  minute :: nat
  second :: nat

record datetime =
  date_part :: date
  time_part :: time

definition valid_date :: "date \<Rightarrow> bool" where
  "valid_date d = (1 \<le> year d \<and> year d \<le> 9999 \<and> 1 \<le> month d \<and> month d \<le> 12
     \<and> 1 \<le> day d \<and> day d \<le> 31)"

definition valid_time :: "time \<Rightarrow> bool" where
  "valid_time t = (hour t \<le> 23 \<and> minute t \<le> 59 \<and> second t \<le> 59)"

definition valid_datetime :: "datetime \<Rightarrow> bool" where
  "valid_datetime dt = (valid_date (date_part dt) \<and> valid_time (time_part dt))"

definition digit_char :: "nat \<Rightarrow> char" where
  "digit_char n = ''0123456789'' ! (n mod 10)"

fun digits :: "nat \<Rightarrow> string" where
  "digits n = (if n < 10 then [digit_char n] else digits (n div 10) @ [digit_char n])"

declare digits.simps [simp del]

text \<open>The format \<^verbatim>\<open>%0wd\<close>: decimal, padded with zeros on the left to width \<open>w\<close>.\<close>

definition zpad :: "nat \<Rightarrow> nat \<Rightarrow> string" where
  "zpad w n = replicate (w - length (digits n)) (CHR ''0'') @ digits n"

text \<open>\<^verbatim>\<open>date.isoformat()\<close>: \<^verbatim>\<open>YYYY-MM-DD\<close>.\<close>

definition date_isoformat :: "date \<Rightarrow> string" where
  "date_isoformat d = zpad 4 (year d) @ ''-'' @ zpad 2 (month d) @ ''-'' @ zpad 2 (day d)"

definition time_isoformat :: "time \<Rightarrow> string" where
  "time_isoformat t = zpad 2 (hour t) @ '':'' @ zpad 2 (minute t) @ '':'' @ zpad 2 (second t)"

text \<open>\<^verbatim>\<open>datetime.isoformat(timespec="seconds")\<close>: \<^verbatim>\<open>YYYY-MM-DDTHH:MM:SS\<close>.\<close>

definition datetime_isoformat :: "datetime \<Rightarrow> string" where
  "datetime_isoformat dt = date_isoformat (date_part dt) @ ''T'' @ time_isoformat (time_part dt)"

text \<open>\<^verbatim>\<open>datetime.combine(d, t)\<close>.\<close>

definition combine :: "date \<Rightarrow> time \<Rightarrow> datetime" where
  "combine d t = \<lparr>date_part = d, time_part = t\<rparr>"

text \<open>The order of time: \<^verbatim>\<open><\<close> on \<^verbatim>\<open>date\<close>, \<^verbatim>\<open>time\<close> and \<^verbatim>\<open>datetime\<close> objects.\<close>

definition date_before :: "date \<Rightarrow> date \<Rightarrow> bool" where
  "date_before d d' =
     (year d < year d' \<or> (year d = year d' \<and>
        (month d < month d' \<or> (month d = month d' \<and> day d < day d'))))"

definition time_before :: "time \<Rightarrow> time \<Rightarrow> bool" where
  "time_before t t' =
     (hour t < hour t' \<or> (hour t = hour t' \<and>
        (minute t < minute t' \<or> (minute t = minute t' \<and> second t < second t'))))"

definition datetime_before :: "datetime \<Rightarrow> datetime \<Rightarrow> bool" where
  "datetime_before dt dt' =
     (date_before (date_part dt) (date_part dt')
      \<or> (date_part dt = date_part dt' \<and> time_before (time_part dt) (time_part dt')))"

section \<open>Domain helpers\<close>

text \<open>
  \<^verbatim>\<open>SELECT ... FROM exercises WHERE name = ?\<close> with \<^verbatim>\<open>fetchone()\<close>: the first matching
  row, \<open>None\<close> when there is none.
\<close>

definition find_exercise_by_name :: "db \<Rightarrow> string \<Rightarrow> Exercise option" where
  "find_exercise_by_name conn name = find (\<lambda>r. ex_name r = name) (exercises conn)"

text \<open>SQL \<^verbatim>\<open>COALESCE(?, column)\<close>: the parameter unless it is \<^verbatim>\<open>NULL\<close>.\<close>

definition coalesce :: "'a option \<Rightarrow> 'a option \<Rightarrow> 'a option" where
  "coalesce new old = (case new of Some v \<Rightarrow> Some v | None \<Rightarrow> old)"

text \<open>Python \<^verbatim>\<open>a or b\<close> on \<^verbatim>\<open>Optional[str]\<close>: \<^verbatim>\<open>None\<close> and the empty string are falsy.\<close>

definition py_or :: "string option \<Rightarrow> string option \<Rightarrow> string option" where
  "py_or a b = (case a of None \<Rightarrow> b | Some v \<Rightarrow> if v = [] then b else Some v)"

text \<open>
  \<^verbatim>\<open>add_or_update_exercise\<close> returns the \<^verbatim>\<open>Exercise\<close> and leaves the connection in a new
  state; the model returns both.
\<close>

definition add_or_update_exercise ::
  "db \<Rightarrow> string \<Rightarrow> string option \<Rightarrow> string option \<Rightarrow> Exercise \<times> db" where
  "add_or_update_exercise conn name primary secondary =
     (case find_exercise_by_name conn name of
        Some existing \<Rightarrow>
          (let conn' = conn\<lparr>exercises :=
                 map (\<lambda>r. if ex_id r = ex_id existing
                           then r\<lparr>primary_muscle := coalesce primary (primary_muscle r),
                                  secondary_muscles := coalesce secondary (secondary_muscles r)\<rparr>
                           else r)
                     (exercises conn)\<rparr>
           in (\<lparr>ex_id = ex_id existing, ex_name = name,
                 primary_muscle = py_or primary (primary_muscle existing),
                 secondary_muscles = py_or secondary (secondary_muscles existing)\<rparr>, conn'))
      | None \<Rightarrow>
          (let lastrowid = next_rowid (map ex_id (exercises conn));
               conn' = conn\<lparr>exercises := exercises conn @
                 [\<lparr>ex_id = lastrowid, ex_name = name,
                   primary_muscle = primary, secondary_muscles = secondary\<rparr>]\<rparr>
           in (\<lparr>ex_id = lastrowid, ex_name = name,
                 primary_muscle = primary, secondary_muscles = secondary\<rparr>, conn')))"

definition epley_e1rm :: "real \<Rightarrow> int \<Rightarrow> real" where
  "epley_e1rm weight reps_n =
     (if reps_n \<le> 1 then weight else weight * (1.0 + real_of_int reps_n / 30.0))"

section \<open>Command \<^verbatim>\<open>add-exercise\<close>\<close>

text \<open>Python truthiness of an optional string argument: \<^verbatim>\<open>None\<close> and \<^verbatim>\<open>""\<close> are falsy.\<close>

definition truthy :: "string option \<Rightarrow> bool" where
  "truthy s = (case s of None \<Rightarrow> False | Some v \<Rightarrow> v \<noteq> [])"

text \<open>
  \<^verbatim>\<open>str.isspace\<close> and \<^verbatim>\<open>str.strip()\<close> on ASCII text: tab, line feed, vertical tab, form
  feed, carriage return, the separators 0x1C to 0x1F and the space.
\<close>

definition is_space :: "char \<Rightarrow> bool" where
  "is_space c = (let n = (of_char c :: nat) in (9 \<le> n \<and> n \<le> 13) \<or> (28 \<le> n \<and> n \<le> 32))"

definition strip :: "string \<Rightarrow> string" where
  "strip s = rev (dropWhile is_space (rev (dropWhile is_space s)))"

text \<open>
  \<^verbatim>\<open>cmd_add_exercise\<close>, from the parsed arguments \<^verbatim>\<open>name\<close>, \<^verbatim>\<open>--primary\<close> and
  \<^verbatim>\<open>--secondary\<close>; the message it prints shows the name and id of the returned record.
\<close>

definition cmd_add_exercise ::
  "db \<Rightarrow> string \<Rightarrow> string option \<Rightarrow> string option \<Rightarrow> Exercise \<times> db" where
  "cmd_add_exercise conn0 name primary secondary =
     (let conn = ensure_schema conn0
      in add_or_update_exercise conn (strip name)
           (if truthy primary then Some (strip (the primary)) else None)
           (if truthy secondary then Some (strip (the secondary)) else None))"

section \<open>The session grouper\<close>

text \<open>
  \<^verbatim>\<open>SELECT ... FROM workouts WHERE date = ? ORDER BY id DESC LIMIT 1\<close> with
  \<^verbatim>\<open>fetchone()\<close>: among the rows of that date the one with the largest id.
\<close>

fun latest_by_id :: "workout_row list \<Rightarrow> workout_row option" where
  "latest_by_id [] = None"
| "latest_by_id (w # ws) =
     (case latest_by_id ws of
        None \<Rightarrow> Some w
      | Some v \<Rightarrow> if wk_id w < wk_id v then Some v else Some w)"

definition select_latest_workout :: "db \<Rightarrow> string \<Rightarrow> workout_row option" where
  "select_latest_workout conn d_str = latest_by_id (filter (\<lambda>w. wk_date w = d_str) (workouts conn))"

text \<open>\<^verbatim>\<open>UPDATE workouts SET end_time = ? WHERE id = ?\<close>.\<close>

definition update_end_time :: "db \<Rightarrow> string \<Rightarrow> int \<Rightarrow> db" where
  "update_end_time conn now_iso wid =
     conn\<lparr>workouts := map (\<lambda>w. if wk_id w = wid then w\<lparr>end_time := Some now_iso\<rparr> else w)
                             (workouts conn)\<rparr>"

definition get_or_create_workout_for_date :: "db \<Rightarrow> date \<Rightarrow> datetime \<Rightarrow> int \<times> db" where
  "get_or_create_workout_for_date conn d set_time =
     (let d_str = date_isoformat d;
          row = select_latest_workout conn d_str;
          now_iso = datetime_isoformat set_time
      in case row of
           Some r \<Rightarrow>
             (let wid = wk_id r
              in if (case end_time r of None \<Rightarrow> True | Some e \<Rightarrow> e < now_iso)
                 then (wid, update_end_time conn now_iso wid)
                 else (wid, conn))
         | None \<Rightarrow>
             (let lastrowid = next_rowid (map wk_id (workouts conn))
              in (lastrowid,
                  conn\<lparr>workouts := workouts conn @
                    [\<lparr>wk_id = lastrowid, wk_date = d_str, start_time = now_iso,
                      end_time = Some now_iso, wk_notes = None\<rparr>]\<rparr>)))"

section \<open>Command \<^verbatim>\<open>log\<close>\<close>

text \<open>
  The ways \<^verbatim>\<open>cmd_log\<close> stops without logging: the four \<^verbatim>\<open>SystemExit\<close> messages of its
  validation, the \<^verbatim>\<open>SystemExit\<close> for an unknown exercise (which carries the name), the
  \<^verbatim>\<open>ValueError\<close> of \<^verbatim>\<open>int(args.workout_id)\<close>, and SQLite's \<^verbatim>\<open>IntegrityError\<close> when a
  foreign key of the new set names no row.
\<close>

datatype error =
    UnitMustBeKgOrLb
  | DateMustBeYMD
  | TimeMustBeHM
  | RepsMustBePositive
  | ExerciseNotFound string
  | ValueError
  | IntegrityError

text \<open>The parsed command line of \<^verbatim>\<open>log\<close> (\<^verbatim>\<open>argparse.Namespace\<close>).\<close>

record args =
  arg_exercise :: string
  arg_weight :: real
  arg_reps :: int
  arg_unit :: string
  arg_rpe :: "real option"
  arg_notes :: "string option"
  arg_date :: "string option"
  arg_time :: "string option"
  arg_workout_id :: "string option"

text \<open>
  What \<^verbatim>\<open>cmd_log\<close> takes from the Python library and the clock: the two \<^verbatim>\<open>strptime\<close>
  parsers (\<open>None\<close> where Python raises \<^verbatim>\<open>ValueError\<close>), \<^verbatim>\<open>int\<close> on a string, and the
  two readings of \<^verbatim>\<open>datetime.now()\<close>, the one taken for the date and the one taken for
  the timestamp.
\<close>

record env =
  strptime_date :: "string \<Rightarrow> date option"
  strptime_time :: "string \<Rightarrow> time option"
  int_of_str :: "string \<Rightarrow> int option"
  now_for_date :: datetime
  now_for_ts :: datetime

text \<open>\<^verbatim>\<open>str.lower()\<close> on ASCII text.\<close>

definition lower_char :: "char \<Rightarrow> char" where
  "lower_char c =
     (case map_of (zip ''ABCDEFGHIJKLMNOPQRSTUVWXYZ'' ''abcdefghijklmnopqrstuvwxyz'') c of
        Some l \<Rightarrow> l
      | None \<Rightarrow> c)"

definition lower :: "string \<Rightarrow> string" where
  "lower s = map lower_char s"

text \<open>Lines 214 to 220: the target date.\<close>

definition log_date :: "env \<Rightarrow> args \<Rightarrow> error + date" where
  "log_date e a =
     (if truthy (arg_date a)
      then (case strptime_date e (the (arg_date a)) of
              None \<Rightarrow> Inl DateMustBeYMD
            | Some d \<Rightarrow> Inr d)
      else Inr (date_part (now_for_date e)))"

text \<open>Lines 222 to 229: the timestamp of the set.\<close>

definition log_ts :: "env \<Rightarrow> args \<Rightarrow> date \<Rightarrow> error + datetime" where
  "log_ts e a d =
     (if truthy (arg_time a)
      then (case strptime_time e (the (arg_time a)) of
              None \<Rightarrow> Inl TimeMustBeHM
            | Some t \<Rightarrow> Inr (combine d t))
      else Inr (now_for_ts e))"

text \<open>
  Lines 251 to 254:
  \<^verbatim>\<open>UPDATE workouts SET end_time = CASE WHEN end_time IS NULL OR ? > end_time THEN ? ELSE end_time END WHERE id = ?\<close>.
\<close>

definition extend_end_time :: "db \<Rightarrow> string \<Rightarrow> int \<Rightarrow> db" where
  "extend_end_time conn now_iso wid =
     conn\<lparr>workouts :=
       map (\<lambda>w. if wk_id w = wid
                 then w\<lparr>end_time :=
                        (if (case end_time w of None \<Rightarrow> True | Some e \<Rightarrow> e < now_iso)
                         then Some now_iso else end_time w)\<rparr>
                 else w)
           (workouts conn)\<rparr>"

text \<open>
  Lines 246 to 257, the workout of the new set: the explicit id with its end time
  extended, or the workout of the date. The result is the id, or the error, and the
  store as committed so far.
\<close>

definition log_workout :: "env \<Rightarrow> args \<Rightarrow> db \<Rightarrow> date \<Rightarrow> datetime \<Rightarrow> (error + int) \<times> db" where
  "log_workout e a conn d ts =
     (if truthy (arg_workout_id a)
      then (case int_of_str e (the (arg_workout_id a)) of
              None \<Rightarrow> (Inl ValueError, conn)
            | Some wid \<Rightarrow> (Inr wid, extend_end_time conn (datetime_isoformat ts) wid))
      else (case get_or_create_workout_for_date conn d ts of
              (wid, conn') \<Rightarrow> (Inr wid, conn')))"

text \<open>
  Lines 259 to 276, \<^verbatim>\<open>INSERT INTO sets ...\<close> under \<^verbatim>\<open>PRAGMA foreign_keys = ON\<close>: the row
  gets the next id; when its workout or its exercise does not exist the statement raises
  and nothing is written.
\<close>

definition insert_set :: "db \<Rightarrow> set_row \<Rightarrow> error + db" where
  "insert_set conn row =
     (if workout_id row \<in> set (map wk_id (workouts conn))
         \<and> exercise_id row \<in> set (map ex_id (exercises conn))
      then Inr (conn\<lparr>sets := sets conn @ [row\<lparr>set_id := next_rowid (map set_id (sets conn))\<rparr>]\<rparr>)
      else Inl IntegrityError)"

text \<open>
  \<^verbatim>\<open>cmd_log\<close>: the outcome (the workout id of the logged set, shown by the final message,
  or the error) and the store it leaves behind.
\<close>

definition cmd_log :: "env \<Rightarrow> args \<Rightarrow> db \<Rightarrow> (error + int) \<times> db" where
  "cmd_log e a db0 =
     (let unit_v = lower (arg_unit a)
      in if unit_v \<noteq> ''kg'' \<and> unit_v \<noteq> ''lb'' then (Inl UnitMustBeKgOrLb, db0)
      else case log_date e a of
        Inl err \<Rightarrow> (Inl err, db0)
      | Inr d \<Rightarrow>
      (case log_ts e a d of
        Inl err \<Rightarrow> (Inl err, db0)
      | Inr ts \<Rightarrow>
      (let weight = arg_weight a;
           reps_n = arg_reps a
       in if reps_n \<le> 0 then (Inl RepsMustBePositive, db0)
       else
       (let weight_kg_v = (if unit_v = ''kg'' then weight else weight * LB_TO_KG);
            conn = ensure_schema db0
        in case find_exercise_by_name conn (arg_exercise a) of
             None \<Rightarrow> (Inl (ExerciseNotFound (arg_exercise a)), conn)
           | Some ex \<Rightarrow>
             (case log_workout e a conn d ts of
                (Inl err, conn1) \<Rightarrow> (Inl err, conn1)
              | (Inr wid, conn1) \<Rightarrow>
                (case insert_set conn1
                        \<lparr>set_id = 0, workout_id = wid, exercise_id = ex_id ex,
                          timestamp = datetime_isoformat ts,
                          input_weight = Some weight, input_unit = Some unit_v,
                          weight_kg = weight_kg_v, reps = reps_n,
                          rpe = arg_rpe a,
                          set_notes = (if truthy (arg_notes a) then arg_notes a else None)\<rparr> of
                   Inl err \<Rightarrow> (Inl err, conn1)
                 | Inr conn2 \<Rightarrow> (Inr wid, conn2)))))))"

section \<open>Commands \<^verbatim>\<open>summary\<close> and \<^verbatim>\<open>prs\<close>\<close>

text \<open>
  The expression the two SQL queries rank by, \<^verbatim>\<open>weight_kg * (1.0 + reps / 30.0)\<close>, and
  the aggregates \<^verbatim>\<open>MAX\<close> and \<^verbatim>\<open>SUM\<close>, which are \<^verbatim>\<open>NULL\<close> over no rows.
\<close>

definition sql_e1rm :: "set_row \<Rightarrow> real" where
  "sql_e1rm s = weight_kg s * (1.0 + real_of_int (reps s) / 30.0)"

definition sql_max :: "real list \<Rightarrow> real option" where
  "sql_max xs = (case xs of [] \<Rightarrow> None | x # rest \<Rightarrow> Some (fold max rest x))"

definition sql_sum :: "real list \<Rightarrow> real option" where
  "sql_sum xs = (case xs of [] \<Rightarrow> None | x # rest \<Rightarrow> Some (sum_list xs))"

text \<open>The sets of an exercise: \<^verbatim>\<open>... sets s ON s.exercise_id = e.id\<close>.\<close>

definition sets_of :: "db \<Rightarrow> int \<Rightarrow> set_row list" where
  "sets_of conn eid = filter (\<lambda>s. exercise_id s = eid) (sets conn)"

text \<open>
  The query of lines 428 to 440: one row per exercise (the groups of \<^verbatim>\<open>GROUP BY e.id\<close>,
  ids being the primary key), in the order of the names.
\<close>

record summary_row =
  sm_name :: string
  sm_sets :: nat
  sm_sessions :: nat
  sm_volume_kg :: "real option"
  sm_best_e1rm :: "real option"

definition summary_query :: "db \<Rightarrow> summary_row list" where
  "summary_query conn =
     map (\<lambda>e. let ss = sets_of conn (ex_id e)
               in \<lparr>sm_name = ex_name e,
                   sm_sets = length ss,
                   sm_sessions = length (remdups (map workout_id ss)),
                   sm_volume_kg = sql_sum (map (\<lambda>s. weight_kg s * real_of_int (reps s)) ss),
                   sm_best_e1rm = sql_max (map sql_e1rm ss)\<rparr>)
         (sort_key ex_name (exercises conn))"

text \<open>
  The values of one printed line of the global summary: the name, and
  \<^verbatim>\<open>r['sets'] or 0\<close>, \<^verbatim>\<open>r['sessions'] or 0\<close>, \<^verbatim>\<open>r['volume_kg'] or 0.0\<close> and
  \<^verbatim>\<open>r['best_e1rm'] or 0.0\<close>, before they are formatted.
\<close>

record summary_line =
  ln_name :: string
  ln_sets :: nat
  ln_sessions :: nat
  ln_volume :: real
  ln_best_e1rm :: real

definition or_zero :: "real option \<Rightarrow> real" where
  "or_zero v = (case v of None \<Rightarrow> 0 | Some x \<Rightarrow> x)"

definition summary_lines :: "db \<Rightarrow> summary_line list" where
  "summary_lines conn =
     map (\<lambda>r. \<lparr>ln_name = sm_name r, ln_sets = sm_sets r, ln_sessions = sm_sessions r,
                 ln_volume = or_zero (sm_volume_kg r),
                 ln_best_e1rm = or_zero (sm_best_e1rm r)\<rparr>)
         (summary_query conn)"

text \<open>
  \<^verbatim>\<open>_print_exercise_summary\<close>: the most recent sets of one exercise
  (\<^verbatim>\<open>ORDER BY s.timestamp DESC, s.id DESC LIMIT ?\<close>, a negative limit being no limit),
  each with its estimate, and the best estimate among them with the set it comes from.
\<close>

datatype exercise_summary =
    ExerciseMissing
  | NoSetsLogged
  | RecentSets "(set_row \<times> real) list" real "set_row option"

fun best_recent :: "set_row list \<Rightarrow> real \<times> set_row option \<Rightarrow> real \<times> set_row option" where
  "best_recent [] acc = acc"
| "best_recent (r # rs) (best_e1rm, best_desc) =
     (let e1 = epley_e1rm (weight_kg r) (reps r)
      in best_recent rs (if best_e1rm < e1 then (e1, Some r) else (best_e1rm, best_desc)))"

definition print_exercise_summary :: "db \<Rightarrow> string \<Rightarrow> int \<Rightarrow> exercise_summary" where
  "print_exercise_summary conn name limit =
     (case find_exercise_by_name conn name of
        None \<Rightarrow> ExerciseMissing
      | Some ex \<Rightarrow>
          (let ordered = rev (sort_key timestamp (sort_key set_id (sets_of conn (ex_id ex))));
               rows = (if limit < 0 then ordered else take (nat limit) ordered)
           in if rows = [] then NoSetsLogged
              else (case best_recent rows (0, None) of
                      (best_e1rm, best_desc) \<Rightarrow>
                        RecentSets (map (\<lambda>r. (r, epley_e1rm (weight_kg r) (reps r))) rows)
                          best_e1rm best_desc)))"

text \<open>
  \<^verbatim>\<open>cmd_summary\<close>: with \<^verbatim>\<open>--exercise\<close> the recent sets of that exercise, otherwise the
  global summary (no line at all stands for the message that there are no exercises).
\<close>

datatype summary_output =
    OneExercise exercise_summary
  | AllExercises "summary_line list"

definition cmd_summary :: "db \<Rightarrow> string option \<Rightarrow> int \<Rightarrow> summary_output" where
  "cmd_summary conn0 exercise limit =
     (let conn = ensure_schema conn0
      in if truthy exercise then OneExercise (print_exercise_summary conn (the exercise) limit)
         else AllExercises (summary_lines conn))"

text \<open>
  The query of \<^verbatim>\<open>cmd_prs\<close>, lines 456 to 473. The subquery \<^verbatim>\<open>m\<close> has one row per
  exercise id that occurs in \<^verbatim>\<open>sets\<close>, with the largest value of the ranking expression;
  the join keeps, for each set, its exercise and the row of \<^verbatim>\<open>m\<close> when the set's own
  value is that maximum; the rows come in the order of the names.
\<close>

record pr_row =
  pr_name :: string
  pr_timestamp :: string
  pr_input_weight :: "real option"
  pr_input_unit :: "string option"
  pr_reps :: int
  pr_e1rm :: real

definition max_e1rm_by_exercise :: "db \<Rightarrow> (int \<times> real option) list" where
  "max_e1rm_by_exercise conn =
     map (\<lambda>eid. (eid, sql_max (map sql_e1rm (sets_of conn eid))))
         (remdups (map exercise_id (sets conn)))"

definition pr_row_of :: "Exercise \<Rightarrow> set_row \<Rightarrow> pr_row" where
  "pr_row_of e s =
     \<lparr>pr_name = ex_name e, pr_timestamp = timestamp s, pr_input_weight = input_weight s,
       pr_input_unit = input_unit s, pr_reps = reps s, pr_e1rm = sql_e1rm s\<rparr>"

definition prs_rows_of_set :: "db \<Rightarrow> set_row \<Rightarrow> pr_row list" where
  "prs_rows_of_set conn s =
     concat (map (\<lambda>e. map (\<lambda>m. pr_row_of e s)
                         (filter (\<lambda>m. fst m = exercise_id s \<and> snd m = Some (sql_e1rm s))
                                 (max_e1rm_by_exercise conn)))
                 (filter (\<lambda>e. ex_id e = exercise_id s) (exercises conn)))"

definition prs_query :: "db \<Rightarrow> pr_row list" where
  "prs_query conn = sort_key pr_name (concat (map (prs_rows_of_set conn) (sets conn)))"

text \<open>
  \<^verbatim>\<open>cmd_prs\<close> prints one line per row of the query (no row at all stands for the message
  that there are no records yet).
\<close>

definition cmd_prs :: "db \<Rightarrow> pr_row list" where
  "cmd_prs conn0 = prs_query (ensure_schema conn0)"

text \<open>The estimate of a stored set, and the best estimate of a non-empty list of sets.\<close>

definition e1rm_of :: "set_row \<Rightarrow> real" where
  "e1rm_of s = epley_e1rm (weight_kg s) (reps s)"

definition best_e1rm_of :: "set_row list \<Rightarrow> real" where
  "best_e1rm_of ss = Max (set (map e1rm_of ss))"

text \<open>The arguments pass the checks of lines 209 to 234 (unit, date, time, reps).\<close>

definition validated :: "env \<Rightarrow> args \<Rightarrow> bool" where
  "validated e a =
     ((lower (arg_unit a) = ''kg'' \<or> lower (arg_unit a) = ''lb'')
      \<and> (case log_date e a of
            Inl err \<Rightarrow> False
          | Inr d \<Rightarrow> (case log_ts e a d of Inl err \<Rightarrow> False | Inr ts \<Rightarrow> True))
      \<and> 0 < arg_reps a)"

text \<open>A sequence of \<^verbatim>\<open>log\<close> commands, each with its own arguments and clock.\<close>

fun run_logs :: "(env \<times> args) list \<Rightarrow> db \<Rightarrow> db" where
  "run_logs [] conn = conn"
| "run_logs (c # cs) conn = run_logs cs (snd (cmd_log (fst c) (snd c) conn))"

text \<open>\<^verbatim>\<open>SELECT ... FROM workouts WHERE id = ?\<close>.\<close>

definition workout_by_id :: "db \<Rightarrow> int \<Rightarrow> workout_row option" where
  "workout_by_id conn i = find (\<lambda>w. wk_id w = i) (workouts conn)"

text \<open>
  A workout row and its later state: the same id, and an end time that, once set, is
  still set and not smaller. A table of workouts and its later state: every old row is
  still there, at its place, in a later state.
\<close>

definition end_time_kept :: "workout_row \<Rightarrow> workout_row \<Rightarrow> bool" where
  "end_time_kept w w' =
     (wk_id w' = wk_id w \<and>
      (case end_time w of
         None \<Rightarrow> True
       | Some t \<Rightarrow> (case end_time w' of None \<Rightarrow> False | Some t' \<Rightarrow> t \<le> t')))"

definition workouts_advance :: "workout_row list \<Rightarrow> workout_row list \<Rightarrow> bool" where
  "workouts_advance ws ws' =
     (length ws \<le> length ws' \<and> list_all2 end_time_kept ws (take (length ws) ws'))"

text \<open>The workouts of a calendar date.\<close>

definition workouts_on :: "db \<Rightarrow> date \<Rightarrow> workout_row list" where
  "workouts_on conn d = filter (\<lambda>w. wk_date w = date_isoformat d) (workouts conn)"

text \<open>
  The canonical-weight invariant of a set row: the entered value and unit are there, the
  unit is kg or lb, and \<^verbatim>\<open>weight_kg\<close> is the entered value, in pounds multiplied by
  0.45359237.
\<close>

definition canonical_weight :: "set_row \<Rightarrow> bool" where
  "canonical_weight s =
     (case input_weight s of
        None \<Rightarrow> False
      | Some w \<Rightarrow> (input_unit s = Some ''kg'' \<and> weight_kg s = w)
                \<or> (input_unit s = Some ''lb'' \<and> weight_kg s = w * 0.45359237))"

text \<open>
  The stores the program can produce: from the empty database, by the two commands that
  write (\<^verbatim>\<open>add-exercise\<close> and \<^verbatim>\<open>log\<close>; the others only read), with any arguments and
  clocks.
\<close>

inductive reachable :: "db \<Rightarrow> bool" where
  init: "reachable \<lparr>exercises = [], workouts = [], sets = []\<rparr>"
| add_exercise: "reachable conn \<Longrightarrow> reachable (snd (cmd_add_exercise conn name primary secondary))"
| log: "reachable conn \<Longrightarrow> reachable (snd (cmd_log e a conn))"

text \<open>The id and the date of a workout row: what the grouping looks at.\<close>

abbreviation id_date :: "workout_row \<Rightarrow> int \<times> string" where
  "id_date w \<equiv> (wk_id w, wk_date w)"

section \<open>Sample data\<close>

abbreviation sample_env :: env where
  "sample_env \<equiv>
     \<lparr>strptime_date = (\<lambda>s. if s = ''2024-05-17'' then Some \<lparr>year = 2024, month = 5, day = 17\<rparr>
                            else if s = ''2024-05-18'' then Some \<lparr>year = 2024, month = 5, day = 18\<rparr>
                            else None),
       strptime_time = (\<lambda>s. if s = ''09:00'' then Some \<lparr>hour = 9, minute = 0, second = 0\<rparr>
                            else if s = ''10:00'' then Some \<lparr>hour = 10, minute = 0, second = 0\<rparr>
                            else None),
       int_of_str = (\<lambda>s. if s = ''1'' then Some 1 else None),
       now_for_date = \<lparr>date_part = \<lparr>year = 2024, month = 5, day = 17\<rparr>,
                        time_part = \<lparr>hour = 11, minute = 0, second = 0\<rparr>\<rparr>,
       now_for_ts = \<lparr>date_part = \<lparr>year = 2024, month = 5, day = 17\<rparr>,
                      time_part = \<lparr>hour = 11, minute = 0, second = 0\<rparr>\<rparr>\<rparr>"

abbreviation bench_args :: args where
  "bench_args \<equiv>
     \<lparr>arg_exercise = ''Bench Press'', arg_weight = 100, arg_reps = 5, arg_unit = ''kg'',
       arg_rpe = None, arg_notes = None, arg_date = Some ''2024-05-17'',
       arg_time = Some ''10:00'', arg_workout_id = None\<rparr>"

abbreviation bench_db :: db where
  "bench_db \<equiv>
     \<lparr>exercises = [\<lparr>ex_id = 1, ex_name = ''Bench Press'', primary_muscle = Some ''Chest'',
                     secondary_muscles = None\<rparr>],
       workouts = [], sets = []\<rparr>"

abbreviation workout_17 :: workout_row where
  "workout_17 \<equiv>
     \<lparr>wk_id = 1, wk_date = ''2024-05-17'', start_time = ''2024-05-17T10:00:00'',
       end_time = Some ''2024-05-17T10:00:00'', wk_notes = None\<rparr>"

abbreviation bench_set :: "int \<Rightarrow> real \<Rightarrow> int \<Rightarrow> set_row" where
  "bench_set i w r \<equiv>
     \<lparr>set_id = i, workout_id = 1, exercise_id = 1, timestamp = ''2024-05-17T10:00:00'',
       input_weight = Some w, input_unit = Some ''kg'', weight_kg = w, reps = r,
       rpe = None, set_notes = None\<rparr>"

abbreviation tie_db :: db where
  "tie_db \<equiv> bench_db\<lparr>workouts := [workout_17], sets := [bench_set 1 100 5, bench_set 2 100 5]\<rparr>"

abbreviation prs_db :: db where
  "prs_db \<equiv> bench_db\<lparr>workouts := [workout_17], sets := [bench_set 1 80 10, bench_set 2 100 3]\<rparr>"

abbreviation single_rep_db :: db where
  "single_rep_db \<equiv>
     bench_db\<lparr>workouts := [workout_17],
       sets := [\<lparr>set_id = 1, workout_id = 1, exercise_id = 1, timestamp = ''2024-05-17T10:00:00'',
                 input_weight = Some 100, input_unit = Some ''kg'', weight_kg = 100, reps = 1,
                 rpe = None, set_notes = None\<rparr>]\<rparr>"

section \<open>The estimated one-rep max\<close>

text \<open>
  C6. \<^verbatim>\<open>epley_e1rm\<close> is a total function of its two arguments: for every weight and
  every rep count at most 1 it returns the weight, and for every rep count above 1 it
  returns the weight times \<open>1 + reps / 30\<close>.
\<close>

theorem epley_e1rm_cases:
  "(reps_n \<le> 1 \<longrightarrow> epley_e1rm w reps_n = w) \<and>
   (reps_n > 1 \<longrightarrow> epley_e1rm w reps_n = w * (1 + real_of_int reps_n / 30))"
  by (simp add: epley_e1rm_def)

theorem epley_e1rm_cases_witness:
  "epley_e1rm 100 1 = 100 \<and> epley_e1rm 100 3 = 110"
  using epley_e1rm_cases [of 1 100] epley_e1rm_cases [of 3 100] by simp

text \<open>
  C7, as stated, fails: for a negative weight (which the function and the \<^verbatim>\<open>log\<close>
  command accept) a higher rep count gives a lower estimate.
\<close>

theorem epley_e1rm_reps_mono_counterexample:
  "\<not> (\<forall>w r1 r2. r1 \<le> r2 \<longrightarrow> epley_e1rm w r1 \<le> epley_e1rm w r2)"
proof
  assume "\<forall>w r1 r2. r1 \<le> r2 \<longrightarrow> epley_e1rm w r1 \<le> epley_e1rm w r2"
  then have "epley_e1rm (- 30) 2 \<le> epley_e1rm (- 30) 3" by simp
  then show False by (simp add: epley_e1rm_def)
qed

text \<open>
  C7, amended. \<^verbatim>\<open>epley_e1rm\<close> is increasing in the weight for every rep count, and
  increasing in the rep count for every weight that is not negative (increasing: a
  larger argument never gives a smaller estimate).
\<close>

theorem epley_e1rm_mono:
  "(w1 \<le> w2 \<longrightarrow> epley_e1rm w1 reps_n \<le> epley_e1rm w2 reps_n) \<and>
   (0 \<le> w \<and> r1 \<le> r2 \<longrightarrow> epley_e1rm w r1 \<le> epley_e1rm w r2)"
proof (intro conjI impI)
  assume "w1 \<le> w2"
  then show "epley_e1rm w1 reps_n \<le> epley_e1rm w2 reps_n"
    by (simp add: epley_e1rm_def mult_right_mono)
next
  assume h: "0 \<le> w \<and> r1 \<le> r2"
  show "epley_e1rm w r1 \<le> epley_e1rm w r2"
  proof (cases "r1 \<le> 1")
    case True
    have "w * 1 \<le> w * (1 + real_of_int r2 / 30)" if "1 < r2"
      using h that by (intro mult_left_mono) simp_all
    with True show ?thesis by (simp add: epley_e1rm_def)
  next
    case False
    with h have "1 < r2" by simp
    moreover have "w * (1 + real_of_int r1 / 30) \<le> w * (1 + real_of_int r2 / 30)"
      using h by (intro mult_left_mono) simp_all
    ultimately show ?thesis using False by (simp add: epley_e1rm_def)
  qed
qed

theorem epley_e1rm_mono_witness:
  "epley_e1rm 80 10 \<le> epley_e1rm 100 10 \<and> epley_e1rm 100 3 \<le> epley_e1rm 100 10"
  using epley_e1rm_mono [of 80 100 10 100 3 10] by simp

section \<open>The exercise upsert\<close>

lemma find_map_preserved:
  assumes "find P xs = Some x" and "\<And>r. P (f r) = P r"
  shows "find P (map f xs) = Some (f x)"
  using assms by (induction xs) (auto split: if_splits)

text \<open>
  C8. When an exercise with the given name exists, \<^verbatim>\<open>add_or_update_exercise\<close> stores
  for each of primary muscle and secondary muscles the new value if one is given (not
  \<^verbatim>\<open>None\<close>) and keeps the stored value otherwise; in particular a call with a new primary
  muscle and no secondary leaves the stored secondary muscles as they were. The id and
  name of the row, the number of exercises, every exercise with another id, and the
  workouts and sets are unchanged.
\<close>

theorem add_or_update_exercise_coalesce:
  assumes "find_exercise_by_name conn name = Some existing"
    and "add_or_update_exercise conn name primary secondary = (ex, conn')"
  shows "find_exercise_by_name conn' name =
           Some (existing\<lparr>
             primary_muscle := (case primary of Some v \<Rightarrow> Some v | None \<Rightarrow> primary_muscle existing),
             secondary_muscles :=
               (case secondary of Some v \<Rightarrow> Some v | None \<Rightarrow> secondary_muscles existing)\<rparr>)
         \<and> (secondary = None \<longrightarrow>
              map_option secondary_muscles (find_exercise_by_name conn' name)
                = Some (secondary_muscles existing))
         \<and> length (exercises conn') = length (exercises conn)
         \<and> filter (\<lambda>r. ex_id r \<noteq> ex_id existing) (exercises conn')
             = filter (\<lambda>r. ex_id r \<noteq> ex_id existing) (exercises conn)
         \<and> workouts conn' = workouts conn \<and> sets conn' = sets conn"
proof -
  let ?f = "\<lambda>r. if ex_id r = ex_id existing
                 then r\<lparr>primary_muscle := coalesce primary (primary_muscle r),
                        secondary_muscles := coalesce secondary (secondary_muscles r)\<rparr>
                 else r"
  have conn': "conn' = conn\<lparr>exercises := map ?f (exercises conn)\<rparr>"
    using assms by (simp add: add_or_update_exercise_def Let_def)
  have "find (\<lambda>r. ex_name r = name) (map ?f (exercises conn)) = Some (?f existing)"
    using assms(1) unfolding find_exercise_by_name_def
    by (intro find_map_preserved) simp_all
  then have found: "find_exercise_by_name conn' name = Some (?f existing)"
    by (simp add: conn' find_exercise_by_name_def)
  have frame: "filter (\<lambda>r. ex_id r \<noteq> ex_id existing) (map ?f xs)
                 = filter (\<lambda>r. ex_id r \<noteq> ex_id existing) xs" for xs :: "Exercise list"
    by (induction xs) simp_all
  show ?thesis
    using found frame [of "exercises conn"]
    by (simp add: conn' coalesce_def split: option.splits)
qed

theorem add_or_update_exercise_coalesce_witness:
  "find_exercise_by_name
     (snd (add_or_update_exercise
        \<lparr>exercises = [\<lparr>ex_id = 1, ex_name = ''Bench Press'', primary_muscle = Some ''Chest'',
                        secondary_muscles = Some ''Triceps''\<rparr>], workouts = [], sets = []\<rparr>
        ''Bench Press'' (Some ''Pectorals'') None))
     ''Bench Press''
   = Some \<lparr>ex_id = 1, ex_name = ''Bench Press'', primary_muscle = Some ''Pectorals'',
           secondary_muscles = Some ''Triceps''\<rparr>"
proof -
  let ?conn = "\<lparr>exercises = [\<lparr>ex_id = 1, ex_name = ''Bench Press'',
                   primary_muscle = Some ''Chest'', secondary_muscles = Some ''Triceps''\<rparr>],
                 workouts = [], sets = []\<rparr>"
  have f: "find_exercise_by_name ?conn ''Bench Press'' =
             Some \<lparr>ex_id = 1, ex_name = ''Bench Press'', primary_muscle = Some ''Chest'',
                   secondary_muscles = Some ''Triceps''\<rparr>"
    by (simp add: find_exercise_by_name_def)
  show ?thesis
    using add_or_update_exercise_coalesce [OF f surjective_pairing, of "Some ''Pectorals''" None]
    by simp
qed

text \<open>
  C10. The record returned for an existing name is built with Python \<^verbatim>\<open>or\<close>, the stored
  row with \<^verbatim>\<open>COALESCE\<close>. For the database holding Bench Press with primary muscle Chest,
  the command \<^verbatim>\<open>add-exercise "Bench Press" --primary " "\<close> passes the empty string as the
  new primary muscle: the stored row gets the empty string, the returned record says
  Chest.
\<close>

theorem add_or_update_exercise_returned_differs:
  "cmd_add_exercise
     \<lparr>exercises = [\<lparr>ex_id = 1, ex_name = ''Bench Press'', primary_muscle = Some ''Chest'',
                     secondary_muscles = None\<rparr>], workouts = [], sets = []\<rparr>
     ''Bench Press'' (Some '' '') None
   = (\<lparr>ex_id = 1, ex_name = ''Bench Press'', primary_muscle = Some ''Chest'',
        secondary_muscles = None\<rparr>,
      \<lparr>exercises = [\<lparr>ex_id = 1, ex_name = ''Bench Press'', primary_muscle = Some '''',
                     secondary_muscles = None\<rparr>], workouts = [], sets = []\<rparr>)"
  by (simp add: cmd_add_exercise_def ensure_schema_def add_or_update_exercise_def
      find_exercise_by_name_def strip_def is_space_def truthy_def coalesce_def py_or_def)

text \<open>
  Away from the empty string the two agree: when no provided value is the empty string,
  the record returned for an existing name is the stored row.
\<close>

lemma add_or_update_exercise_returned_is_stored:
  assumes "find_exercise_by_name conn name = Some existing"
    and "add_or_update_exercise conn name primary secondary = (ex, conn')"
    and "primary \<noteq> Some []" and "secondary \<noteq> Some []"
  shows "find_exercise_by_name conn' name = Some ex"
proof -
  let ?f = "\<lambda>r. if ex_id r = ex_id existing
                 then r\<lparr>primary_muscle := coalesce primary (primary_muscle r),
                        secondary_muscles := coalesce secondary (secondary_muscles r)\<rparr>
                 else r"
  have nm: "ex_name existing = name"
    using assms(1) unfolding find_exercise_by_name_def by (auto simp: find_Some_iff)
  have "find (\<lambda>r. ex_name r = name) (map ?f (exercises conn)) = Some (?f existing)"
    using assms(1) unfolding find_exercise_by_name_def
    by (intro find_map_preserved) simp_all
  then show ?thesis
    using assms nm
    by (auto simp: add_or_update_exercise_def Let_def find_exercise_by_name_def
        coalesce_def py_or_def split: option.splits)
qed

section \<open>Logging a set: outcomes\<close>

lemmas log_eval =
  cmd_log_def lower_def lower_char_def log_date_def log_ts_def truthy_def ensure_schema_def
  find_exercise_by_name_def log_workout_def get_or_create_workout_for_date_def
  select_latest_workout_def update_end_time_def extend_end_time_def datetime_isoformat_def
  date_isoformat_def time_isoformat_def zpad_def digits.simps digit_char_def combine_def
  insert_set_def next_rowid_def Let_def

lemma cmd_log_Inr:
  assumes "cmd_log e a db0 = (Inr wid, db1)"
  obtains d ts ex conn1 where
    "log_date e a = Inr d" "log_ts e a d = Inr ts" "0 < arg_reps a"
    "lower (arg_unit a) = ''kg'' \<or> lower (arg_unit a) = ''lb''"
    "find_exercise_by_name db0 (arg_exercise a) = Some ex"
    "log_workout e a db0 d ts = (Inr wid, conn1)"
    "insert_set conn1
        \<lparr>set_id = 0, workout_id = wid, exercise_id = ex_id ex,
          timestamp = datetime_isoformat ts,
          input_weight = Some (arg_weight a), input_unit = Some (lower (arg_unit a)),
          weight_kg = (if lower (arg_unit a) = ''kg'' then arg_weight a
                       else arg_weight a * LB_TO_KG),
          reps = arg_reps a, rpe = arg_rpe a,
          set_notes = (if truthy (arg_notes a) then arg_notes a else None)\<rparr> = Inr db1"
  using assms
  by (auto simp: cmd_log_def Let_def ensure_schema_def
      split: sum.splits option.splits if_splits prod.splits)

lemma cmd_log_store:
  "snd (cmd_log e a db0) = db0
   \<or> (\<exists>d ts r conn1. log_date e a = Inr d \<and> log_ts e a d = Inr ts
        \<and> log_workout e a db0 d ts = (r, conn1)
        \<and> (snd (cmd_log e a db0) = conn1
           \<or> (\<exists>row. insert_set conn1 row = Inr (snd (cmd_log e a db0)))))"
  by (auto simp: cmd_log_def Let_def ensure_schema_def
      split: sum.splits option.splits if_splits prod.splits)

text \<open>
  C9. Logging a set for an exercise name that the store does not have: the command
  stops with an error and the store is as it was (no set row, no workout row, nothing
  else). When the arguments pass the validation that precedes the lookup, the error is
  the one for an unknown exercise, which carries the name and differs from every other
  error; otherwise it is one of the four validation errors.
\<close>

theorem cmd_log_unknown_exercise:
  assumes "find_exercise_by_name db0 (arg_exercise a) = None"
  shows "snd (cmd_log e a db0) = db0
       \<and> (validated e a \<longrightarrow> fst (cmd_log e a db0) = Inl (ExerciseNotFound (arg_exercise a)))
       \<and> (\<not> validated e a \<longrightarrow>
            fst (cmd_log e a db0) \<in> {Inl UnitMustBeKgOrLb, Inl DateMustBeYMD,
                                     Inl TimeMustBeHM, Inl RepsMustBePositive})"
  using assms
  by (auto simp: cmd_log_def validated_def Let_def ensure_schema_def log_date_def log_ts_def
      split: sum.splits option.splits)

theorem cmd_log_unknown_exercise_witness:
  "cmd_log sample_env (bench_args\<lparr>arg_exercise := ''Squat''\<rparr>) bench_db
     = (Inl (ExerciseNotFound ''Squat''), bench_db)"
proof -
  let ?a = "bench_args\<lparr>arg_exercise := ''Squat''\<rparr>"
  have h: "find_exercise_by_name bench_db (arg_exercise ?a) = None"
    by (simp add: find_exercise_by_name_def)
  have v: "validated sample_env ?a"
    by (simp add: validated_def lower_def lower_char_def log_date_def log_ts_def truthy_def)
  show ?thesis
    using cmd_log_unknown_exercise [OF h, of sample_env] v by (simp add: prod_eq_iff)
qed

section \<open>ISO texts and the order of time\<close>

text \<open>
  For dates and times in Python's range the ISO text determines the value, and the order
  of the texts is the order of time.
\<close>

lemma digit_char_eq_iff: "digit_char a = digit_char b \<longleftrightarrow> a mod 10 = b mod 10"
proof -
  have d: "distinct ''0123456789''" by simp
  have "a mod 10 < length ''0123456789''" "b mod 10 < length ''0123456789''" by simp_all
  with d show ?thesis unfolding digit_char_def by (simp only: nth_eq_iff_index_eq)
qed

lemma digits_small: "n < 10 \<Longrightarrow> digits n = [digit_char n]"
  by (simp add: digits.simps [of n])

lemma digits_step: "10 \<le> n \<Longrightarrow> digits n = digits (n div 10) @ [digit_char n]"
  by (simp add: digits.simps [of n])

lemma zpad2: "n < 100 \<Longrightarrow> zpad 2 n = [digit_char (n div 10), digit_char n]"
  by (cases "n < 10") (simp_all add: zpad_def digits_small digits_step digit_char_def)

lemma zpad4:
  assumes "n < 10000"
  shows "zpad 4 n = [digit_char (n div 1000), digit_char (n div 100), digit_char (n div 10), digit_char n]"
proof -
  have z: "digit_char 0 = CHR ''0''" by (simp add: digit_char_def)
  have r: "replicate 3 c = [c, c, c]" "replicate 2 c = [c, c]" for c :: char
    by (simp_all add: numeral_3_eq_3 numeral_2_eq_2)
  have dd: "n div 10 div 10 = n div 100" "n div 100 div 10 = n div 1000"
    by (simp_all add: div_mult2_eq [symmetric])
  consider "n < 10" | "10 \<le> n" "n < 100" | "100 \<le> n" "n < 1000" | "1000 \<le> n" "n < 10000"
    using assms by linarith
  then show ?thesis
  proof cases
    case 1
    then show ?thesis by (simp add: zpad_def digits_small z r)
  next
    case 2
    then have "n div 10 < 10" "n div 100 = 0" by simp_all
    with 2 show ?thesis
      by (simp add: zpad_def digits_small digits_step z r)
  next
    case 3
    then have "n div 100 < 10" "10 \<le> n div 10" "n div 1000 = 0" "10 \<le> n" by simp_all
    then show ?thesis
      by (simp add: zpad_def digits_small digits_step z dd)
  next
    case 4
    then have "n div 1000 < 10" "10 \<le> n div 100" "10 \<le> n div 10" "10 \<le> n" by simp_all
    then show ?thesis
      by (simp add: zpad_def digits_small digits_step dd)
  qed
qed

lemma two_digits_eq:
  assumes "n < 100" "m < 100" "n div 10 mod 10 = m div 10 mod 10" "n mod 10 = (m::nat) mod 10"
  shows "n = m"
proof -
  from assms(1,2) have "n div 10 mod 10 = n div 10" "m div 10 mod 10 = m div 10" by simp_all
  with assms(3) have "n div 10 = m div 10" by simp
  with assms(4) show ?thesis by (metis div_mult_mod_eq)
qed

lemma four_digits_eq:
  assumes "n < 10000" "m < 10000" "n div 1000 mod 10 = m div 1000 mod 10"
    "n div 100 mod 10 = m div 100 mod 10" "n div 10 mod 10 = m div 10 mod 10" "n mod 10 = (m::nat) mod 10"
  shows "n = m"
proof -
  from assms(1,2) have "n div 1000 mod 10 = n div 1000" "m div 1000 mod 10 = m div 1000" by simp_all
  with assms(3) have "n div 100 div 10 = m div 100 div 10" by (simp add: div_mult2_eq [symmetric])
  with assms(4) have "n div 100 = m div 100" by (metis div_mult_mod_eq)
  then have "n div 10 div 10 = m div 10 div 10" by (simp add: div_mult2_eq [symmetric])
  with assms(5) have "n div 10 = m div 10" by (metis div_mult_mod_eq)
  with assms(6) show ?thesis by (metis div_mult_mod_eq)
qed

lemma digit_char_less_iff: "digit_char a < digit_char b \<longleftrightarrow> a mod 10 < b mod 10"
proof -
  have s: "sorted_wrt (<) ''0123456789''" by (simp add: less_char_def)
  have l: "a mod 10 < length ''0123456789''" "b mod 10 < length ''0123456789''" by simp_all
  have up: "''0123456789'' ! i < ''0123456789'' ! j" if "i < j" "j < 10" for i j
    using sorted_wrt_nth_less [OF s, of i j] that by simp
  show ?thesis
  proof (cases "a mod 10 < b mod 10")
    case True
    then show ?thesis using up [of "a mod 10" "b mod 10"] by (simp add: digit_char_def)
  next
    case False
    then consider "a mod 10 = b mod 10" | "b mod 10 < a mod 10" by linarith
    then show ?thesis
    proof cases
      case 1
      then show ?thesis by (simp add: digit_char_def)
    next
      case 2
      then have "digit_char b < digit_char a"
        using up [of "b mod 10" "a mod 10"] by (simp add: digit_char_def)
      with 2 show ?thesis by simp
    qed
  qed
qed

lemma append_less_iff:
  "length a = length a' \<Longrightarrow> (a @ b < a' @ b') \<longleftrightarrow> (a < a' \<or> (a = a' \<and> b < (b' :: 'a :: linorder list)))"
  by (induction a a' rule: list_induct2) auto

lemma less_by_digit: "(n::nat) < m \<longleftrightarrow> n div 10 < m div 10 \<or> (n div 10 = m div 10 \<and> n mod 10 < m mod 10)"
proof -
  define q r q' r' where "q = n div 10" and "r = n mod 10" and "q' = m div 10" and "r' = m mod 10"
  have n: "n = 10 * q + r" and m: "m = 10 * q' + r'" and b: "r < 10" "r' < 10"
    by (simp_all add: q_def r_def q'_def r'_def)
  have "(10 * q + r < 10 * q' + r') = (q < q' \<or> (q = q' \<and> r < r'))"
    using b by linarith
  then show ?thesis
    unfolding n m by (simp add: q_def r_def q'_def r'_def)
qed

lemma length_zpad2: "n < 100 \<Longrightarrow> length (zpad 2 n) = 2"
  by (simp add: zpad2)

lemma length_zpad4: "n < 10000 \<Longrightarrow> length (zpad 4 n) = 4"
  by (simp add: zpad4)

lemma zpad2_eq_iff: "n < 100 \<Longrightarrow> m < 100 \<Longrightarrow> zpad 2 n = zpad 2 m \<longleftrightarrow> n = m"
  by (auto simp: zpad2 digit_char_eq_iff intro: two_digits_eq)

lemma zpad4_eq_iff: "n < 10000 \<Longrightarrow> m < 10000 \<Longrightarrow> zpad 4 n = zpad 4 m \<longleftrightarrow> n = m"
  by (auto simp: zpad4 digit_char_eq_iff intro: four_digits_eq)

lemma zpad2_less_iff:
  assumes "n < 100" "m < 100"
  shows "zpad 2 n < zpad 2 m \<longleftrightarrow> n < m"
proof -
  from assms have "n div 10 mod 10 = n div 10" "m div 10 mod 10 = m div 10" by simp_all
  then show ?thesis
    using assms less_by_digit [of n m]
    by (simp add: zpad2 digit_char_less_iff digit_char_eq_iff)
qed

lemma zpad4_less_iff:
  assumes "n < 10000" "m < 10000"
  shows "zpad 4 n < zpad 4 m \<longleftrightarrow> n < m"
proof -
  have dd: "k div 10 div 10 = k div 100" "k div 100 div 10 = k div 1000" for k :: nat
    by (simp_all add: div_mult2_eq [symmetric])
  from assms have top: "n div 1000 mod 10 = n div 1000" "m div 1000 mod 10 = m div 1000" by simp_all
  have 1: "n < m \<longleftrightarrow> n div 10 < m div 10 \<or> (n div 10 = m div 10 \<and> n mod 10 < m mod 10)"
    by (rule less_by_digit)
  have 2: "n div 10 < m div 10 \<longleftrightarrow>
      n div 100 < m div 100 \<or> (n div 100 = m div 100 \<and> n div 10 mod 10 < m div 10 mod 10)"
    using less_by_digit [of "n div 10" "m div 10"] by (simp add: dd)
  have 3: "n div 100 < m div 100 \<longleftrightarrow>
      n div 1000 < m div 1000 \<or> (n div 1000 = m div 1000 \<and> n div 100 mod 10 < m div 100 mod 10)"
    using less_by_digit [of "n div 100" "m div 100"] by (simp add: dd)
  have e2: "n div 10 = m div 10 \<longleftrightarrow> n div 100 = m div 100 \<and> n div 10 mod 10 = m div 10 mod 10"
    by (metis dd(1) div_mult_mod_eq)
  have e3: "n div 100 = m div 100 \<longleftrightarrow> n div 1000 = m div 1000 \<and> n div 100 mod 10 = m div 100 mod 10"
    by (metis dd(2) div_mult_mod_eq)
  show ?thesis
    unfolding 1 2 3 e2 e3
    using assms by (auto simp: zpad4 digit_char_less_iff digit_char_eq_iff top)
qed

lemma date_isoformat_eq_iff:
  assumes "valid_date d" "valid_date d'"
  shows "date_isoformat d = date_isoformat d' \<longleftrightarrow> d = d'"
proof -
  from assms have b: "year d < 10000" "month d < 100" "day d < 100"
    "year d' < 10000" "month d' < 100" "day d' < 100"
    by (simp_all add: valid_date_def)
  have "date_isoformat d = date_isoformat d' \<longleftrightarrow>
          year d = year d' \<and> month d = month d' \<and> day d = day d'"
    using b by (simp add: date_isoformat_def length_zpad2 length_zpad4
        zpad2_eq_iff zpad4_eq_iff)
  then show ?thesis by auto
qed

lemma date_isoformat_less_iff:
  assumes "valid_date d" "valid_date d'"
  shows "date_isoformat d < date_isoformat d' \<longleftrightarrow> date_before d d'"
proof -
  from assms have b: "year d < 10000" "month d < 100" "day d < 100"
    "year d' < 10000" "month d' < 100" "day d' < 100"
    by (simp_all add: valid_date_def)
  show ?thesis
    using b by (simp add: date_isoformat_def date_before_def append_less_iff length_zpad2
        length_zpad4 zpad2_eq_iff zpad4_eq_iff zpad2_less_iff zpad4_less_iff)
qed

lemma time_isoformat_eq_iff:
  assumes "valid_time t" "valid_time t'"
  shows "time_isoformat t = time_isoformat t' \<longleftrightarrow> t = t'"
proof -
  from assms have b: "hour t < 100" "minute t < 100" "second t < 100"
    "hour t' < 100" "minute t' < 100" "second t' < 100"
    by (simp_all add: valid_time_def)
  have "time_isoformat t = time_isoformat t' \<longleftrightarrow>
          hour t = hour t' \<and> minute t = minute t' \<and> second t = second t'"
    using b by (simp add: time_isoformat_def length_zpad2 zpad2_eq_iff)
  then show ?thesis by auto
qed

lemma time_isoformat_less_iff:
  assumes "valid_time t" "valid_time t'"
  shows "time_isoformat t < time_isoformat t' \<longleftrightarrow> time_before t t'"
proof -
  from assms have b: "hour t < 100" "minute t < 100" "second t < 100"
    "hour t' < 100" "minute t' < 100" "second t' < 100"
    by (simp_all add: valid_time_def)
  show ?thesis
    using b by (simp add: time_isoformat_def time_before_def append_less_iff length_zpad2
        zpad2_eq_iff zpad2_less_iff)
qed

lemma length_date_isoformat: "valid_date d \<Longrightarrow> length (date_isoformat d) = 10"
  by (simp add: valid_date_def date_isoformat_def length_zpad2 length_zpad4)

lemma datetime_isoformat_less_iff:
  assumes "valid_datetime dt" "valid_datetime dt'"
  shows "datetime_isoformat dt < datetime_isoformat dt' \<longleftrightarrow> datetime_before dt dt'"
  using assms
  by (simp add: datetime_isoformat_def datetime_before_def valid_datetime_def append_less_iff
      length_date_isoformat date_isoformat_less_iff date_isoformat_eq_iff time_isoformat_less_iff)

lemma datetime_isoformat_eq_iff:
  assumes "valid_datetime dt" "valid_datetime dt'"
  shows "datetime_isoformat dt = datetime_isoformat dt' \<longleftrightarrow> dt = dt'"
proof -
  have "datetime_isoformat dt = datetime_isoformat dt' \<longleftrightarrow>
          date_part dt = date_part dt' \<and> time_part dt = time_part dt'"
    using assms
    by (simp add: datetime_isoformat_def valid_datetime_def
      length_date_isoformat date_isoformat_eq_iff time_isoformat_eq_iff)
  then show ?thesis by auto
qed

section \<open>The end time of a workout\<close>

lemma fold_max_ge: "x \<in> set (i # rest) \<Longrightarrow> x \<le> fold max rest (i::int)"
  unfolding Max.set_eq_fold [symmetric] by (rule Max_ge) simp_all

lemma next_rowid_fresh: "next_rowid ids \<notin> set ids"
proof (cases ids)
  case Nil
  then show ?thesis by simp
next
  case (Cons i rest)
  have "x \<le> fold max rest i" if "x \<in> set ids" for x
    using that Cons fold_max_ge [of x i rest] by simp
  then show ?thesis using Cons by (fastforce simp: next_rowid_def)
qed

lemma latest_by_id_in: "latest_by_id ws = Some r \<Longrightarrow> r \<in> set ws"
  by (induction ws arbitrary: r) (auto split: option.splits if_splits)

lemma latest_by_id_None: "latest_by_id ws = None \<longleftrightarrow> ws = []"
  by (cases ws) (auto split: option.splits)

lemma end_time_kept_refl: "end_time_kept w w"
  by (simp add: end_time_kept_def split: option.splits)

lemma end_time_kept_trans:
  "end_time_kept a b \<Longrightarrow> end_time_kept b c \<Longrightarrow> end_time_kept a c"
  by (auto simp: end_time_kept_def split: option.splits)

lemma workouts_advance_refl: "workouts_advance ws ws"
  by (simp add: workouts_advance_def list_all2_refl end_time_kept_refl)

lemma workouts_advance_trans:
  assumes "workouts_advance a b" and "workouts_advance b c"
  shows "workouts_advance a c"
proof -
  from assms have len: "length a \<le> length b" "length b \<le> length c"
    and ab: "list_all2 end_time_kept a (take (length a) b)"
    and bc: "list_all2 end_time_kept b (take (length b) c)"
    by (simp_all add: workouts_advance_def)
  from bc have "list_all2 end_time_kept (take (length a) b) (take (length a) (take (length b) c))"
    by (rule list_all2_takeI)
  with len have "list_all2 end_time_kept (take (length a) b) (take (length a) c)"
    by (simp add: min_def)
  with ab have "list_all2 end_time_kept a (take (length a) c)"
    by (rule list_all2_trans [rotated, OF _ _]) (auto intro: end_time_kept_trans)
  with len show ?thesis by (simp add: workouts_advance_def)
qed

lemma workouts_advance_map:
  assumes "\<And>w. w \<in> set ws \<Longrightarrow> end_time_kept w (f w)"
  shows "workouts_advance ws (map f ws)"
  using assms by (simp add: workouts_advance_def list.rel_map list.rel_refl_strong)

lemma workouts_advance_append: "workouts_advance ws (ws @ new)"
  by (simp add: workouts_advance_def list_all2_refl end_time_kept_refl)

lemma update_end_time_ids:
  "map wk_id (workouts (update_end_time conn t wid)) = map wk_id (workouts conn)"
  by (simp add: update_end_time_def comp_def)

lemma extend_end_time_ids:
  "map wk_id (workouts (extend_end_time conn t wid)) = map wk_id (workouts conn)"
  by (simp add: extend_end_time_def comp_def)

lemma extend_end_time_advance:
  "workouts_advance (workouts conn) (workouts (extend_end_time conn t wid))"
  unfolding extend_end_time_def
  by (auto intro!: workouts_advance_map simp: end_time_kept_def split: option.splits)

lemma get_or_create_advance:
  assumes "distinct (map wk_id (workouts conn))"
  shows "workouts_advance (workouts conn)
           (workouts (snd (get_or_create_workout_for_date conn d ts)))
       \<and> distinct (map wk_id (workouts (snd (get_or_create_workout_for_date conn d ts))))"
proof (cases "select_latest_workout conn (date_isoformat d)")
  case None
  then show ?thesis
    using assms next_rowid_fresh [of "map wk_id (workouts conn)"]
    by (simp add: get_or_create_workout_for_date_def Let_def workouts_advance_append)
next
  case (Some r)
  then have r: "r \<in> set (workouts conn)"
    by (auto simp: select_latest_workout_def dest: latest_by_id_in)
  have same: "w = r" if "w \<in> set (workouts conn)" "wk_id w = wk_id r" for w
    using assms that r by (meson distinct_map inj_onD)
  show ?thesis
  proof (cases "case end_time r of None \<Rightarrow> True | Some e \<Rightarrow> e < datetime_isoformat ts")
    case True
    have "end_time_kept w
            (if wk_id w = wk_id r then w\<lparr>end_time := Some (datetime_isoformat ts)\<rparr> else w)"
      if "w \<in> set (workouts conn)" for w
      using same [OF that] True by (auto simp: end_time_kept_def split: option.splits)
    then have "workouts_advance (workouts conn)
                 (workouts (update_end_time conn (datetime_isoformat ts) (wk_id r)))"
      unfolding update_end_time_def by (auto intro!: workouts_advance_map)
    then show ?thesis
      using Some True assms
      by (simp add: get_or_create_workout_for_date_def Let_def update_end_time_ids)
  next
    case False
    then show ?thesis
      using Some assms
      by (simp add: get_or_create_workout_for_date_def Let_def workouts_advance_refl)
  qed
qed

lemma insert_set_workouts: "insert_set conn row = Inr conn' \<Longrightarrow> workouts conn' = workouts conn"
  by (auto simp: insert_set_def split: if_splits)

lemma log_workout_advance:
  assumes "distinct (map wk_id (workouts conn))"
  shows "workouts_advance (workouts conn) (workouts (snd (log_workout e a conn d ts)))
       \<and> distinct (map wk_id (workouts (snd (log_workout e a conn d ts))))"
  using assms get_or_create_advance [OF assms, of d ts]
  by (auto simp: log_workout_def workouts_advance_refl extend_end_time_advance
      extend_end_time_ids split: option.splits prod.splits)

lemma cmd_log_advance:
  assumes "distinct (map wk_id (workouts conn))"
  shows "workouts_advance (workouts conn) (workouts (snd (cmd_log e a conn)))
       \<and> distinct (map wk_id (workouts (snd (cmd_log e a conn))))"
proof -
  consider (same) "snd (cmd_log e a conn) = conn"
    | (grouped) d ts r conn1 where "log_workout e a conn d ts = (r, conn1)"
        "workouts (snd (cmd_log e a conn)) = workouts conn1"
    using cmd_log_store [of e a conn] by (auto dest: insert_set_workouts)
  then show ?thesis
  proof cases
    case same
    then show ?thesis using assms by (simp add: workouts_advance_refl)
  next
    case grouped
    with log_workout_advance [OF assms, of e a d ts] show ?thesis by simp
  qed
qed

lemma run_logs_advance:
  assumes "distinct (map wk_id (workouts conn))"
  shows "workouts_advance (workouts conn) (workouts (run_logs cs conn))"
  using assms
proof (induction cs arbitrary: conn)
  case Nil
  then show ?case by (simp add: workouts_advance_refl)
next
  case (Cons c cs)
  from cmd_log_advance [OF Cons.prems, of "fst c" "snd c"]
  show ?case using Cons.IH by (auto intro: workouts_advance_trans)
qed

lemma find_advance:
  assumes "list_all2 end_time_kept ws us" and "find (\<lambda>w. wk_id w = i) ws = Some w"
  shows "\<exists>w'. find (\<lambda>w. wk_id w = i) (us @ vs) = Some w' \<and> end_time_kept w w'"
  using assms
  by (induction ws us rule: list_all2_induct) (auto simp: end_time_kept_def split: if_splits)

text \<open>
  C3. In a store whose workout ids are distinct (they are the table's primary key), take
  a workout whose end time is set. After any sequence of \<^verbatim>\<open>log\<close> commands, whatever their
  arguments and clocks (with or without an explicit workout id, successful or not, with
  timestamps in any order), the workout with that id is still there, its end time is
  still set, and it is not smaller than before in the order in which the code compares
  timestamps, the order of their ISO texts; so when the old and the new end time are the
  texts of two datetimes, the new one is not before the old one.
\<close>

theorem cmd_log_end_time_monotone:
  assumes "distinct (map wk_id (workouts conn))"
    and "workout_by_id conn i = Some w" and "end_time w = Some t"
  shows "\<exists>w' t'. workout_by_id (run_logs cs conn) i = Some w' \<and> end_time w' = Some t' \<and> t \<le> t'
           \<and> (\<forall>dt dt'. valid_datetime dt \<and> valid_datetime dt' \<and> t = datetime_isoformat dt
                  \<and> t' = datetime_isoformat dt' \<longrightarrow> \<not> datetime_before dt' dt)"
proof -
  let ?ws' = "workouts (run_logs cs conn)"
  from run_logs_advance [OF assms(1), of cs]
  have "list_all2 end_time_kept (workouts conn) (take (length (workouts conn)) ?ws')"
    by (simp add: workouts_advance_def)
  from find_advance [OF this, of i w "drop (length (workouts conn)) ?ws'"] assms(2)
  obtain w' where w': "workout_by_id (run_logs cs conn) i = Some w'" "end_time_kept w w'"
    by (auto simp: workout_by_id_def)
  with assms(3) obtain t' where t': "end_time w' = Some t'" "t \<le> t'"
    by (auto simp: end_time_kept_def split: option.splits)
  have "\<not> datetime_before dt' dt"
    if "valid_datetime dt" "valid_datetime dt'" "t = datetime_isoformat dt"
      "t' = datetime_isoformat dt'" for dt dt'
    using that t'(2) datetime_isoformat_less_iff [of dt' dt] by auto
  with w'(1) t' show ?thesis by blast
qed

theorem cmd_log_end_time_monotone_witness:
  "\<exists>w' t'. workout_by_id
      (run_logs [(sample_env, bench_args\<lparr>arg_time := Some ''09:00''\<rparr>)]
         (bench_db\<lparr>workouts := [workout_17]\<rparr>)) 1 = Some w'
     \<and> end_time w' = Some t' \<and> ''2024-05-17T10:00:00'' \<le> t'"
proof -
  let ?db = "bench_db\<lparr>workouts := [workout_17]\<rparr>"
  have h1: "distinct (map wk_id (workouts ?db))" by simp
  have h2: "workout_by_id ?db 1 = Some workout_17" by (simp add: workout_by_id_def)
  have h3: "end_time workout_17 = Some ''2024-05-17T10:00:00''" by simp
  from cmd_log_end_time_monotone [OF h1 h2 h3] show ?thesis by blast
qed

text \<open>
  The same scenario computed: a set logged for 09:00 into the workout of the day, whose
  end time is 10:00, is attached to it and leaves its end time at 10:00; a set logged
  for 10:00 into a workout that ends at 09:00 moves the end time to 10:00.
\<close>

lemma cmd_log_earlier_timestamp_example:
  "cmd_log sample_env (bench_args\<lparr>arg_time := Some ''09:00''\<rparr>)
     (bench_db\<lparr>workouts := [workout_17]\<rparr>)
   = (Inr 1,
      bench_db\<lparr>workouts := [workout_17],
        sets := [\<lparr>set_id = 1, workout_id = 1, exercise_id = 1,
                  timestamp = ''2024-05-17T09:00:00'', input_weight = Some 100,
                  input_unit = Some ''kg'', weight_kg = 100, reps = 5, rpe = None,
                  set_notes = None\<rparr>]\<rparr>)"
  by (simp add: log_eval)

lemma cmd_log_later_timestamp_example:
  "workouts (snd (cmd_log sample_env bench_args
     (bench_db\<lparr>workouts := [workout_17\<lparr>end_time := Some ''2024-05-17T09:00:00''\<rparr>]\<rparr>)))
   = [workout_17]"
  by (simp add: log_eval)


section \<open>The canonical weight\<close>

lemma LB_TO_KG_value: "LB_TO_KG = 0.45359237"
  by (simp add: LB_TO_KG_def)

lemma add_or_update_exercise_sets: "sets (snd (add_or_update_exercise conn n p s)) = sets conn"
  by (simp add: add_or_update_exercise_def Let_def split: option.splits)

lemma cmd_add_exercise_sets: "sets (snd (cmd_add_exercise conn n p s)) = sets conn"
  by (simp add: cmd_add_exercise_def ensure_schema_def add_or_update_exercise_sets)

lemma get_or_create_sets: "sets (snd (get_or_create_workout_for_date conn d ts)) = sets conn"
  by (simp add: get_or_create_workout_for_date_def update_end_time_def Let_def split: option.splits)

lemma log_workout_sets: "sets (snd (log_workout e a conn d ts)) = sets conn"
  using get_or_create_sets [of conn d ts]
  by (auto simp: log_workout_def extend_end_time_def split: option.splits prod.splits)

lemma insert_set_sets:
  "insert_set conn row = Inr conn' \<Longrightarrow>
     sets conn' = sets conn @ [row\<lparr>set_id := next_rowid (map set_id (sets conn))\<rparr>]"
  by (auto simp: insert_set_def split: if_splits)

lemma cmd_log_new_sets:
  "list_all canonical_weight (sets conn) \<Longrightarrow> list_all canonical_weight (sets (snd (cmd_log e a conn)))"
proof (cases "cmd_log e a conn")
  case (Pair r conn')
  assume inv: "list_all canonical_weight (sets conn)"
  show ?thesis
  proof (cases r)
    case (Inl err)
    have "sets conn' = sets conn"
      using Pair Inl log_workout_sets [of e a conn]
      by (auto simp: cmd_log_def Let_def ensure_schema_def insert_set_def
          split: sum.splits option.splits if_splits prod.splits) (metis snd_conv)+
    with inv Pair show ?thesis by simp
  next
    case (Inr wid)
    with Pair have "cmd_log e a conn = (Inr wid, conn')" by simp
    then show ?thesis
    proof (rule cmd_log_Inr)
      fix d ts conn1 and ex :: Exercise
      assume u: "lower (arg_unit a) = ''kg'' \<or> lower (arg_unit a) = ''lb''"
        and w: "log_workout e a conn d ts = (Inr wid, conn1)"
        and i: "insert_set conn1
        \<lparr>set_id = 0, workout_id = wid, exercise_id = ex_id ex,
          timestamp = datetime_isoformat ts,
          input_weight = Some (arg_weight a), input_unit = Some (lower (arg_unit a)),
          weight_kg = (if lower (arg_unit a) = ''kg'' then arg_weight a
                       else arg_weight a * LB_TO_KG),
          reps = arg_reps a, rpe = arg_rpe a,
          set_notes = (if truthy (arg_notes a) then arg_notes a else None)\<rparr> = Inr conn'"
      from w have "sets conn1 = sets conn" using log_workout_sets [of e a conn d ts] by simp
      with insert_set_sets [OF i] inv u Pair show ?thesis
        by (auto simp: canonical_weight_def LB_TO_KG_value)
    qed
  qed
qed

text \<open>
  C4. Every set row of every store the program can produce satisfies the
  canonical-weight invariant: the entered value and the entered unit are stored with
  it, the unit is kg or lb, and \<^verbatim>\<open>weight_kg\<close> is the entered value when the unit is kg
  and the entered value times 0.45359237 when the unit is lb.
\<close>

theorem canonical_weight_invariant:
  assumes "reachable conn" and "s \<in> set (sets conn)"
  shows "\<exists>w. input_weight s = Some w
           \<and> ((input_unit s = Some ''kg'' \<and> weight_kg s = w)
              \<or> (input_unit s = Some ''lb'' \<and> weight_kg s = w * 0.45359237))"
proof -
  from assms(1) have "list_all canonical_weight (sets conn)"
    by (induction rule: reachable.induct) (simp_all add: cmd_add_exercise_sets cmd_log_new_sets)
  with assms(2) have "canonical_weight s" by (simp add: list_all_iff)
  then show ?thesis by (auto simp: canonical_weight_def split: option.splits)
qed

theorem canonical_weight_invariant_witness:
  "sets (snd (cmd_log sample_env (bench_args\<lparr>arg_weight := 220, arg_unit := ''lb''\<rparr>)
      (snd (cmd_add_exercise \<lparr>exercises = [], workouts = [], sets = []\<rparr>
              ''Bench Press'' (Some ''Chest'') None))))
     = [\<lparr>set_id = 1, workout_id = 1, exercise_id = 1, timestamp = ''2024-05-17T10:00:00'',
          input_weight = Some 220, input_unit = Some ''lb'', weight_kg = 99.7903214,
          reps = 5, rpe = None, set_notes = None\<rparr>]
   \<and> canonical_weight
        \<lparr>set_id = 1, workout_id = 1, exercise_id = 1, timestamp = ''2024-05-17T10:00:00'',
          input_weight = Some 220, input_unit = Some ''lb'', weight_kg = 99.7903214,
          reps = 5, rpe = None, set_notes = None\<rparr>"
proof -
  let ?s = "\<lparr>set_id = 1, workout_id = 1, exercise_id = 1, timestamp = ''2024-05-17T10:00:00'',
              input_weight = Some 220, input_unit = Some ''lb'', weight_kg = 99.7903214,
              reps = 5, rpe = None, set_notes = None\<rparr>"
  let ?start = "snd (cmd_add_exercise \<lparr>exercises = [], workouts = [], sets = []\<rparr>
                     ''Bench Press'' (Some ''Chest'') None)"
  let ?db = "snd (cmd_log sample_env (bench_args\<lparr>arg_weight := 220, arg_unit := ''lb''\<rparr>) ?start)"
  have step1: "?start = bench_db"
    by (simp add: cmd_add_exercise_def add_or_update_exercise_def find_exercise_by_name_def
        ensure_schema_def truthy_def strip_def is_space_def next_rowid_def)
  have step2: "sets (snd (cmd_log sample_env
                  (bench_args\<lparr>arg_weight := 220, arg_unit := ''lb''\<rparr>) bench_db)) = [?s]"
    by (simp add: log_eval LB_TO_KG_def)
  have r: "reachable ?db"
    by (intro reachable.intros)
  have m: "sets ?db = [?s]"
    using step1 step2 by simp
  then have "?s \<in> set (sets ?db)" by simp
  from canonical_weight_invariant [OF r this] have "canonical_weight ?s"
    by (simp add: canonical_weight_def)
  with m show ?thesis by simp
qed

section \<open>One workout per calendar date\<close>

lemma update_end_time_id_date:
  "map id_date (workouts (update_end_time conn t wid)) = map id_date (workouts conn)"
  by (simp add: update_end_time_def comp_def)

lemma filter_id_date:
  assumes "map id_date ws' = map id_date ws"
  shows "map wk_id (filter (\<lambda>w. wk_date w = s) ws') = map wk_id (filter (\<lambda>w. wk_date w = s) ws)"
proof -
  from assms have "length ws' = length ws" by (rule map_eq_imp_length_eq)
  then show ?thesis using assms by (induction ws' ws rule: list_induct2) auto
qed

lemma latest_by_id_Max:
  "map_option wk_id (latest_by_id ws) = (if ws = [] then None else Some (Max (set (map wk_id ws))))"
proof (induction ws)
  case Nil
  then show ?case by simp
next
  case (Cons w ws)
  show ?case
  proof (cases "ws = []")
    case True
    then show ?thesis by simp
  next
    case False
    with Cons obtain v where v: "latest_by_id ws = Some v" "wk_id v = Max (set (map wk_id ws))"
      by auto
    have "Max (set (map wk_id (w # ws))) = max (wk_id w) (Max (set (map wk_id ws)))"
      using False by (simp del: set_map)
    with v show ?thesis by (simp add: max_def)
  qed
qed

lemma latest_by_id_ids:
  assumes "map wk_id ws' = map wk_id ws"
  shows "map_option wk_id (latest_by_id ws') = map_option wk_id (latest_by_id ws)"
proof -
  from assms have "length ws' = length ws" by (rule map_eq_imp_length_eq)
  then have "ws' = [] \<longleftrightarrow> ws = []" by auto
  with assms show ?thesis by (simp only: latest_by_id_Max)
qed

lemma select_latest_None_iff:
  "select_latest_workout conn (date_isoformat d) = None \<longleftrightarrow> workouts_on conn d = []"
  by (simp add: select_latest_workout_def workouts_on_def latest_by_id_None)

lemma get_or_create_existing:
  assumes "workouts_on conn d \<noteq> []" and "get_or_create_workout_for_date conn d ts = (wid, conn')"
  shows "map id_date (workouts conn') = map id_date (workouts conn)
       \<and> map_option wk_id (latest_by_id (workouts_on conn d)) = Some wid"
proof -
  from assms(1) obtain r where r: "select_latest_workout conn (date_isoformat d) = Some r"
    using select_latest_None_iff [of conn d] by auto
  then have "latest_by_id (workouts_on conn d) = Some r"
    by (simp add: select_latest_workout_def workouts_on_def)
  with r assms(2) show ?thesis
    by (auto simp: get_or_create_workout_for_date_def Let_def update_end_time_id_date
        split: if_splits)
qed

lemma get_or_create_new:
  assumes "workouts_on conn d = []" and "get_or_create_workout_for_date conn d ts = (wid, conn')"
  shows "\<exists>w. workouts conn' = workouts conn @ [w] \<and> wk_id w = wid
           \<and> wk_date w = date_isoformat d \<and> wid \<notin> set (map wk_id (workouts conn))"
proof -
  from assms(1) have "select_latest_workout conn (date_isoformat d) = None"
    by (simp add: select_latest_None_iff)
  with assms(2) show ?thesis
    using next_rowid_fresh [of "map wk_id (workouts conn)"]
    by (auto simp: get_or_create_workout_for_date_def Let_def)
qed

lemma cmd_log_implicit:
  assumes "cmd_log e a conn = (Inr wid, conn')" and "\<not> truthy (arg_workout_id a)"
    and "log_date e a = Inr d"
  obtains ts conn1 where "get_or_create_workout_for_date conn d ts = (wid, conn1)"
    "workouts conn' = workouts conn1" "\<exists>s. sets conn' = sets conn @ [s] \<and> workout_id s = wid"
  using assms(1)
proof (rule cmd_log_Inr)
  fix d' ts conn1 and ex :: Exercise
  assume d': "log_date e a = Inr d'"
    and w: "log_workout e a conn d' ts = (Inr wid, conn1)"
    and i: "insert_set conn1
        \<lparr>set_id = 0, workout_id = wid, exercise_id = ex_id ex,
          timestamp = datetime_isoformat ts,
          input_weight = Some (arg_weight a), input_unit = Some (lower (arg_unit a)),
          weight_kg = (if lower (arg_unit a) = ''kg'' then arg_weight a
                       else arg_weight a * LB_TO_KG),
          reps = arg_reps a, rpe = arg_rpe a,
          set_notes = (if truthy (arg_notes a) then arg_notes a else None)\<rparr> = Inr conn'"
  from d' assms(3) have [simp]: "d' = d" by simp
  from w assms(2) have g: "get_or_create_workout_for_date conn d ts = (wid, conn1)"
    by (auto simp: log_workout_def split: prod.splits)
  from w have "sets conn1 = sets conn" using log_workout_sets [of e a conn d' ts] by simp
  with insert_set_sets [OF i] have "\<exists>s. sets conn' = sets conn @ [s] \<and> workout_id s = wid"
    by simp
  with g insert_set_workouts [OF i] that show thesis by blast
qed

lemma cmd_log_implicit_existing:
  assumes "cmd_log e a conn = (Inr wid, conn')" and "\<not> truthy (arg_workout_id a)"
    and "log_date e a = Inr d" and "workouts_on conn d \<noteq> []"
  shows "map id_date (workouts conn') = map id_date (workouts conn)"
    and "map_option wk_id (latest_by_id (workouts_on conn d)) = Some wid"
    and "\<exists>s. sets conn' = sets conn @ [s] \<and> workout_id s = wid"
  using cmd_log_implicit [OF assms(1-3)] get_or_create_existing [OF assms(4)]
  by metis+

lemma cmd_log_implicit_new:
  assumes "cmd_log e a conn = (Inr wid, conn')" and "\<not> truthy (arg_workout_id a)"
    and "log_date e a = Inr d" and "workouts_on conn d = []"
  shows "\<exists>w. workouts conn' = workouts conn @ [w] \<and> wk_id w = wid
           \<and> wk_date w = date_isoformat d \<and> wid \<notin> set (map wk_id (workouts conn))"
    and "\<exists>s. sets conn' = sets conn @ [s] \<and> workout_id s = wid"
  using cmd_log_implicit [OF assms(1-3)] get_or_create_new [OF assms(4)]
  by metis+

lemma workouts_on_append:
  "workouts conn' = workouts conn @ [w] \<Longrightarrow>
     workouts_on conn' d = workouts_on conn d @ (if wk_date w = date_isoformat d then [w] else [])"
  by (simp add: workouts_on_def)

lemma workouts_on_id_date:
  "map id_date (workouts conn') = map id_date (workouts conn) \<Longrightarrow>
     map wk_id (workouts_on conn' d) = map wk_id (workouts_on conn d)"
  unfolding workouts_on_def by (rule filter_id_date)

lemma get_or_create_distinct_dates:
  assumes "distinct (map wk_date (workouts conn))"
  shows "distinct (map wk_date (workouts (snd (get_or_create_workout_for_date conn d ts))))"
proof (cases "workouts_on conn d = []")
  case True
  then have "date_isoformat d \<notin> set (map wk_date (workouts conn))"
    by (auto simp: workouts_on_def filter_empty_conv)
  moreover obtain wid conn' where g: "get_or_create_workout_for_date conn d ts = (wid, conn')"
    by (cases "get_or_create_workout_for_date conn d ts")
  ultimately show ?thesis using get_or_create_new [OF True g] assms by auto
next
  case False
  obtain wid conn' where g: "get_or_create_workout_for_date conn d ts = (wid, conn')"
    by (cases "get_or_create_workout_for_date conn d ts")
  from get_or_create_existing [OF False g]
  have "map id_date (workouts conn') = map id_date (workouts conn)" by simp
  then have "map wk_date (workouts conn') = map wk_date (workouts conn)"
    by (metis (no_types, lifting) list.map_comp snd_conv map_eq_conv o_apply)
  with g assms show ?thesis by simp
qed

lemma cmd_log_distinct_dates:
  assumes "distinct (map wk_date (workouts conn))"
  shows "distinct (map wk_date (workouts (snd (cmd_log e a conn))))"
proof -
  consider (same) "snd (cmd_log e a conn) = conn"
    | (grouped) d ts r conn1 where "log_workout e a conn d ts = (r, conn1)"
        "workouts (snd (cmd_log e a conn)) = workouts conn1"
    using cmd_log_store [of e a conn] by (auto dest: insert_set_workouts)
  then show ?thesis
  proof cases
    case same
    then show ?thesis using assms by simp
  next
    case grouped
    have "map wk_date (workouts (extend_end_time conn t wid)) = map wk_date (workouts conn)" for t wid
      by (simp add: extend_end_time_def comp_def)
    with grouped assms get_or_create_distinct_dates [OF assms, of d ts] show ?thesis
      by (auto simp: log_workout_def split: if_splits option.splits prod.splits)
  qed
qed

lemma reachable_distinct_dates: "reachable conn \<Longrightarrow> distinct (map wk_date (workouts conn))"
proof (induction rule: reachable.induct)
  case init
  then show ?case by simp
next
  case (add_exercise conn name primary secondary)
  have "workouts (snd (cmd_add_exercise conn name primary secondary)) = workouts conn"
    by (simp add: cmd_add_exercise_def ensure_schema_def add_or_update_exercise_def Let_def
        split: option.splits)
  with add_exercise show ?case by simp
next
  case (log conn e a)
  then show ?case by (simp add: cmd_log_distinct_dates)
qed

text \<open>
  C2. Three \<^verbatim>\<open>log\<close> commands run one after the other, none with an explicit workout
  id, all successful: the first two for the same calendar date, the third for another
  date that has no workout yet. The first creates a workout row exactly when its date
  had none; the second creates none and its set goes to the workout of the first; so
  the two sets of the same date are attached to one workout, and a date that had no
  workout has exactly one afterwards. The third creates one more workout row, with
  another id. No date that had a workout gets a second one: when no two workouts of the
  store shared a date before, none do afterwards.
\<close>

theorem cmd_log_one_workout_per_date:
  assumes noid: "\<not> truthy (arg_workout_id a1)" "\<not> truthy (arg_workout_id a2)"
      "\<not> truthy (arg_workout_id a3)"
    and dates: "log_date e1 a1 = Inr d" "log_date e2 a2 = Inr d" "log_date e3 a3 = Inr d'"
    and valid: "valid_date d" "valid_date d'" "d' \<noteq> d"
    and fresh: "workouts_on db0 d' = []"
    and logs: "cmd_log e1 a1 db0 = (Inr w1, db1)" "cmd_log e2 a2 db1 = (Inr w2, db2)"
      "cmd_log e3 a3 db2 = (Inr w3, db3)"
  shows "length (workouts db1) = length (workouts db0) + (if workouts_on db0 d = [] then 1 else 0)
       \<and> length (workouts db2) = length (workouts db1)
       \<and> w2 = w1
       \<and> (\<exists>s1 s2. sets db2 = sets db0 @ [s1, s2] \<and> workout_id s1 = w1 \<and> workout_id s2 = w1)
       \<and> length (workouts db3) = length (workouts db2) + 1
       \<and> w3 \<noteq> w1
       \<and> length (workouts_on db3 d) = max 1 (length (workouts_on db0 d))
       \<and> map wk_id (workouts_on db3 d') = [w3]
       \<and> (distinct (map wk_date (workouts db0)) \<longrightarrow> distinct (map wk_date (workouts db3)))"
proof -
  have iso: "date_isoformat d \<noteq> date_isoformat d'"
    using valid by (simp add: date_isoformat_eq_iff)
  have first: "length (workouts db1) = length (workouts db0) + (if workouts_on db0 d = [] then 1 else 0)
      \<and> map_option wk_id (latest_by_id (workouts_on db1 d)) = Some w1
      \<and> length (workouts_on db1 d) = max 1 (length (workouts_on db0 d))
      \<and> workouts_on db1 d' = []
      \<and> (\<exists>s1. sets db1 = sets db0 @ [s1] \<and> workout_id s1 = w1)"
  proof (cases "workouts_on db0 d = []")
    case True
    from cmd_log_implicit_new [OF logs(1) noid(1) dates(1) True]
    obtain w s1 where 1: "workouts db1 = workouts db0 @ [w]" "wk_id w = w1"
        "wk_date w = date_isoformat d" "sets db1 = sets db0 @ [s1]" "workout_id s1 = w1"
      by auto
    from 1 True fresh iso have "workouts_on db1 d = [w]" "workouts_on db1 d' = []"
      by (simp_all add: workouts_on_append)
    with 1 True show ?thesis by simp
  next
    case False
    from cmd_log_implicit_existing [OF logs(1) noid(1) dates(1) False]
    obtain s1 where 1: "map id_date (workouts db1) = map id_date (workouts db0)"
        "map_option wk_id (latest_by_id (workouts_on db0 d)) = Some w1"
        "sets db1 = sets db0 @ [s1]" "workout_id s1 = w1"
      by auto
    from 1(1) have len: "length (workouts db1) = length (workouts db0)"
      by (rule map_eq_imp_length_eq)
    have ids: "map wk_id (workouts_on db1 d) = map wk_id (workouts_on db0 d)"
        "map wk_id (workouts_on db1 d') = map wk_id (workouts_on db0 d')"
      using workouts_on_id_date [OF 1(1)] by simp_all
    from ids(1) have "length (workouts_on db1 d) = length (workouts_on db0 d)"
      by (rule map_eq_imp_length_eq)
    moreover from False have "1 \<le> length (workouts_on db0 d)"
      by (cases "workouts_on db0 d") simp_all
    moreover from ids(2) fresh have "workouts_on db1 d' = []" by simp
    ultimately show ?thesis
      using False len 1 latest_by_id_ids [OF ids(1)] by (simp add: max_def)
  qed
  then obtain s1 where 1: "map_option wk_id (latest_by_id (workouts_on db1 d)) = Some w1"
      "workouts_on db1 d' = []" "sets db1 = sets db0 @ [s1]" "workout_id s1 = w1"
    by auto
  from 1(1) have ne: "workouts_on db1 d \<noteq> []" by auto
  from 1(1) obtain r where "latest_by_id (workouts_on db1 d) = Some r" "wk_id r = w1" by auto
  then have "r \<in> set (workouts db1)" "wk_id r = w1"
    using latest_by_id_in [of "workouts_on db1 d" r] by (auto simp: workouts_on_def)
  then have mem: "w1 \<in> set (map wk_id (workouts db1))" by auto
  from cmd_log_implicit_existing [OF logs(2) noid(2) dates(2) ne] 1(1)
  obtain s2 where 2: "map id_date (workouts db2) = map id_date (workouts db1)"
      "w2 = w1" "sets db2 = sets db1 @ [s2]" "workout_id s2 = w2"
    by auto
  from 2(1) have len2: "length (workouts db2) = length (workouts db1)"
    by (rule map_eq_imp_length_eq)
  have "map (fst \<circ> id_date) (workouts db2) = map (fst \<circ> id_date) (workouts db1)"
    using 2(1) unfolding map_map [symmetric] by simp
  then have ids2: "map wk_id (workouts db2) = map wk_id (workouts db1)"
    by (simp add: comp_def)
  from workouts_on_id_date [OF 2(1), of d] workouts_on_id_date [OF 2(1), of d'] 1(2)
  have on2: "length (workouts_on db2 d) = length (workouts_on db1 d)" "workouts_on db2 d' = []"
    by (auto dest: map_eq_imp_length_eq)
  from cmd_log_implicit_new [OF logs(3) noid(3) dates(3) on2(2)]
  obtain w' where 3: "workouts db3 = workouts db2 @ [w']" "wk_id w' = w3"
      "wk_date w' = date_isoformat d'" "w3 \<notin> set (map wk_id (workouts db2))"
    by auto
  from 3(4) ids2 mem have "w3 \<noteq> w1" by auto
  moreover from 3 on2 iso have "length (workouts_on db3 d) = length (workouts_on db1 d)"
      "map wk_id (workouts_on db3 d') = [w3]"
    by (simp_all add: workouts_on_append)
  moreover have "distinct (map wk_date (workouts db3))" if "distinct (map wk_date (workouts db0))"
    using cmd_log_distinct_dates [of db0 e1 a1] cmd_log_distinct_dates [of db1 e2 a2]
      cmd_log_distinct_dates [of db2 e3 a3] logs that by simp
  ultimately show ?thesis using first 1 2 3 len2 by simp
qed

theorem cmd_log_one_workout_per_date_witness:
  "length (workouts (snd (cmd_log sample_env (bench_args\<lparr>arg_date := Some ''2024-05-18''\<rparr>)
      (snd (cmd_log sample_env (bench_args\<lparr>arg_time := Some ''09:00''\<rparr>)
        (snd (cmd_log sample_env bench_args bench_db))))))) = 2
   \<and> map workout_id (sets (snd (cmd_log sample_env (bench_args\<lparr>arg_time := Some ''09:00''\<rparr>)
        (snd (cmd_log sample_env bench_args bench_db))))) = [1, 1]"
proof -
  let ?d = "\<lparr>year = 2024, month = 5, day = 17\<rparr>"
  let ?d' = "\<lparr>year = 2024, month = 5, day = 18\<rparr>"
  let ?a2 = "bench_args\<lparr>arg_time := Some ''09:00''\<rparr>"
  let ?a3 = "bench_args\<lparr>arg_date := Some ''2024-05-18''\<rparr>"
  let ?s1 = "\<lparr>set_id = 1, workout_id = 1, exercise_id = 1, timestamp = ''2024-05-17T10:00:00'',
               input_weight = Some 100, input_unit = Some ''kg'', weight_kg = 100, reps = 5,
               rpe = None, set_notes = None\<rparr>"
  let ?s2 = "?s1\<lparr>set_id := 2, timestamp := ''2024-05-17T09:00:00''\<rparr>"
  let ?s3 = "?s1\<lparr>set_id := 3, workout_id := 2, timestamp := ''2024-05-18T10:00:00''\<rparr>"
  let ?w18 = "\<lparr>wk_id = 2, wk_date = ''2024-05-18'', start_time = ''2024-05-18T10:00:00'',
                end_time = Some ''2024-05-18T10:00:00'', wk_notes = None\<rparr>"
  let ?db1 = "bench_db\<lparr>workouts := [workout_17], sets := [?s1]\<rparr>"
  let ?db2 = "bench_db\<lparr>workouts := [workout_17], sets := [?s1, ?s2]\<rparr>"
  let ?db3 = "bench_db\<lparr>workouts := [workout_17, ?w18], sets := [?s1, ?s2, ?s3]\<rparr>"
  have noid: "\<not> truthy (arg_workout_id bench_args)" "\<not> truthy (arg_workout_id ?a2)"
      "\<not> truthy (arg_workout_id ?a3)"
    by (simp_all add: truthy_def)
  have dates: "log_date sample_env bench_args = Inr ?d" "log_date sample_env ?a2 = Inr ?d"
      "log_date sample_env ?a3 = Inr ?d'"
    by (simp_all add: log_date_def truthy_def)
  have valid: "valid_date ?d" "valid_date ?d'" "?d' \<noteq> ?d"
    by (simp_all add: valid_date_def)
  have fresh: "workouts_on bench_db ?d' = []"
    by (simp add: workouts_on_def)
  have l1: "cmd_log sample_env bench_args bench_db = (Inr 1, ?db1)"
    by (simp add: log_eval)
  have l2: "cmd_log sample_env ?a2 ?db1 = (Inr 1, ?db2)"
    by (simp add: log_eval)
  have l3: "cmd_log sample_env ?a3 ?db2 = (Inr 2, ?db3)"
    by (simp add: log_eval)
  from cmd_log_one_workout_per_date [OF noid dates valid fresh l1 l2 l3]
  have "length (workouts ?db3) = length (workouts ?db2) + 1"
    "\<exists>s1 s2. sets ?db2 = sets bench_db @ [s1, s2] \<and> workout_id s1 = 1 \<and> workout_id s2 = 1"
    by blast+
  then show ?thesis using l1 l2 l3 by auto
qed

section \<open>The best estimate of the summary\<close>

lemma single_rep_reachable:
  "cmd_log sample_env (bench_args\<lparr>arg_reps := 1\<rparr>) bench_db = (Inr 1, single_rep_db)"
  by (simp add: log_eval)

text \<open>
  C1. The global summary ranks by the SQL expression, which has no case for one rep,
  while \<^verbatim>\<open>epley_e1rm\<close> returns the weight there. For the store with one set of
  100 kg for 1 rep (what \<^verbatim>\<open>log --weight 100 --reps 1\<close> leaves behind) the summary
  reports a best estimate of \<open>100 * (1 + 1/30) = 310/3\<close>, the maximum of \<^verbatim>\<open>epley_e1rm\<close>
  over the sets is 100, and the per-exercise view of the same command, which calls
  \<^verbatim>\<open>epley_e1rm\<close>, reports 100.
\<close>

theorem cmd_summary_best_e1rm_differs:
  "cmd_summary single_rep_db None 10
     = AllExercises [\<lparr>ln_name = ''Bench Press'', ln_sets = 1, ln_sessions = 1, ln_volume = 100,
                       ln_best_e1rm = 310 / 3\<rparr>]
   \<and> best_e1rm_of (sets_of single_rep_db 1) = 100
   \<and> cmd_summary single_rep_db (Some ''Bench Press'') 10
     = OneExercise (RecentSets [(hd (sets single_rep_db), 100)] 100 (Some (hd (sets single_rep_db))))"
  by (simp add: cmd_summary_def ensure_schema_def truthy_def summary_lines_def summary_query_def
      sets_of_def sql_sum_def sql_max_def sql_e1rm_def or_zero_def best_e1rm_of_def e1rm_of_def
      epley_e1rm_def print_exercise_summary_def find_exercise_by_name_def)

text \<open>For sets of more than one rep the two agree.\<close>

lemma sql_max_Max:
  assumes "xs \<noteq> []"
  shows "sql_max xs = Some (Max (set xs))"
proof (cases xs)
  case Nil
  with assms show ?thesis by simp
next
  case (Cons a list)
  then show ?thesis using Max.set_eq_fold [of a list] by (simp add: sql_max_def)
qed

lemma sql_e1rm_epley: "1 < reps s \<Longrightarrow> sql_e1rm s = e1rm_of s"
  by (simp add: sql_e1rm_def e1rm_of_def epley_e1rm_def)

lemma summary_best_e1rm_many_reps:
  assumes "ss \<noteq> []" and "\<And>s. s \<in> set ss \<Longrightarrow> 1 < reps s"
  shows "sql_max (map sql_e1rm ss) = Some (best_e1rm_of ss)"
proof -
  have "map sql_e1rm ss = map e1rm_of ss"
    using assms(2) by (simp add: sql_e1rm_epley)
  with assms(1) show ?thesis by (simp add: sql_max_Max best_e1rm_of_def)
qed

section \<open>Personal records\<close>

lemma filter_eq_distinct: "distinct xs \<Longrightarrow> x \<in> set xs \<Longrightarrow> filter (\<lambda>i. i = x) xs = [x]"
  by (induction xs) (auto simp: filter_empty_conv)

lemma filter_key_distinct:
  "distinct (map f xs) \<Longrightarrow> x \<in> set xs \<Longrightarrow> filter (\<lambda>y. f y = f x) xs = [x]"
proof (induction xs)
  case Nil
  then show ?case by simp
next
  case (Cons a xs)
  show ?case
  proof (cases "x = a")
    case True
    from Cons.prems have "f a \<notin> f ` set xs" by simp
    then have "\<forall>y \<in> set xs. f y \<noteq> f a" by (metis imageI)
    then have "filter (\<lambda>y. f y = f a) xs = []"
      by (simp add: filter_empty_conv)
    with True show ?thesis by simp
  next
    case False
    with Cons show ?thesis by auto
  qed
qed

lemma max_row_of_set:
  assumes "s \<in> set (sets conn)"
  shows "filter (\<lambda>m. fst m = exercise_id s \<and> snd m = Some v) (max_e1rm_by_exercise conn)
       = (if sql_max (map sql_e1rm (sets_of conn (exercise_id s))) = Some v
          then [(exercise_id s, Some v)] else [])"
proof -
  let ?g = "\<lambda>eid. (eid, sql_max (map sql_e1rm (sets_of conn eid)))"
  let ?ids = "remdups (map exercise_id (sets conn))"
  have "filter (\<lambda>m. fst m = exercise_id s \<and> snd m = Some v) (map ?g ?ids)
      = filter (\<lambda>m. snd m = Some v) (map ?g (filter (\<lambda>i. i = exercise_id s) ?ids))"
    by (simp add: filter_map comp_def conj_commute)
  also have "filter (\<lambda>i. i = exercise_id s) ?ids = [exercise_id s]"
    using assms by (intro filter_eq_distinct) auto
  finally show ?thesis by (simp add: max_e1rm_by_exercise_def)
qed

lemma prs_rows_of_own_set:
  assumes "distinct (map ex_id (exercises conn))" and "e \<in> set (exercises conn)"
    and "s \<in> set (sets conn)" and "exercise_id s = ex_id e"
  shows "prs_rows_of_set conn s
       = (if sql_max (map sql_e1rm (sets_of conn (ex_id e))) = Some (sql_e1rm s)
          then [pr_row_of e s] else [])"
proof -
  have "filter (\<lambda>e'. ex_id e' = exercise_id s) (exercises conn) = [e]"
    using filter_key_distinct [OF assms(1,2)] assms(4) by simp
  then show ?thesis
    using max_row_of_set [OF assms(3), of "sql_e1rm s"] assms(4)
    by (simp add: prs_rows_of_set_def)
qed

lemma prs_rows_of_other_set:
  assumes "distinct (map ex_name (exercises conn))" and "e \<in> set (exercises conn)"
    and "exercise_id s \<noteq> ex_id e"
  shows "filter (\<lambda>r. pr_name r = ex_name e) (prs_rows_of_set conn s) = []"
proof -
  have "ex_name e' \<noteq> ex_name e" if "e' \<in> set (exercises conn)" "ex_id e' = exercise_id s" for e'
  proof
    assume "ex_name e' = ex_name e"
    with assms(1,2) that(1) have "e' = e" by (meson distinct_map inj_onD)
    with that(2) assms(3) show False by simp
  qed
  then have "\<forall>e' \<in> set (exercises conn). ex_id e' = exercise_id s \<longrightarrow> ex_name e' \<noteq> ex_name e"
    by blast
  then show ?thesis
    by (auto simp: prs_rows_of_set_def filter_empty_conv pr_row_of_def)
qed

lemma prs_rows_named:
  assumes "distinct (map ex_id (exercises conn))" and "distinct (map ex_name (exercises conn))"
    and "e \<in> set (exercises conn)" and "set ss \<subseteq> set (sets conn)"
  shows "filter (\<lambda>r. pr_name r = ex_name e) (concat (map (prs_rows_of_set conn) ss))
       = map (pr_row_of e)
           (filter (\<lambda>s. exercise_id s = ex_id e
                       \<and> sql_max (map sql_e1rm (sets_of conn (ex_id e))) = Some (sql_e1rm s)) ss)"
  using assms(4)
proof (induction ss)
  case Nil
  then show ?case by simp
next
  case (Cons s ss)
  show ?case
  proof (cases "exercise_id s = ex_id e")
    case True
    with Cons prs_rows_of_own_set [OF assms(1,3), of s] show ?thesis
      by (simp add: pr_row_of_def)
  next
    case False
    with Cons prs_rows_of_other_set [OF assms(2,3), of s] show ?thesis by simp
  qed
qed

lemma cmd_prs_rows_of_exercise:
  assumes "distinct (map ex_id (exercises conn))" and "distinct (map ex_name (exercises conn))"
    and "e \<in> set (exercises conn)"
  shows "filter (\<lambda>r. pr_name r = ex_name e) (cmd_prs conn)
       = map (pr_row_of e)
           (filter (\<lambda>s. sql_max (map sql_e1rm (sets_of conn (ex_id e))) = Some (sql_e1rm s))
                   (sets_of conn (ex_id e)))"
proof -
  have "filter (\<lambda>r. pr_name r = ex_name e) (cmd_prs conn)
      = filter (\<lambda>r. pr_name r = ex_name e) (concat (map (prs_rows_of_set conn) (sets conn)))"
    unfolding cmd_prs_def prs_query_def ensure_schema_def by (rule sort_key_stable)
  also have "\<dots> = map (pr_row_of e)
           (filter (\<lambda>s. exercise_id s = ex_id e
                       \<and> sql_max (map sql_e1rm (sets_of conn (ex_id e))) = Some (sql_e1rm s))
                   (sets conn))"
    by (rule prs_rows_named [OF assms]) simp
  also have "\<dots> = map (pr_row_of e)
           (filter (\<lambda>s. sql_max (map sql_e1rm (sets_of conn (ex_id e))) = Some (sql_e1rm s))
                   (sets_of conn (ex_id e)))"
    unfolding sets_of_def filter_filter by (simp add: conj_commute)
  finally show ?thesis .
qed

lemmas prs_eval =
  cmd_prs_def prs_query_def prs_rows_of_set_def max_e1rm_by_exercise_def pr_row_of_def
  sets_of_def sql_max_def sql_e1rm_def ensure_schema_def

text \<open>
  C5, as stated, fails: for an exercise with two sets of the same estimate (100 kg for
  5 reps, twice) \<^verbatim>\<open>prs\<close> reports two sets, not one.
\<close>

theorem cmd_prs_tie_counterexample:
  "cmd_prs tie_db
     = [\<lparr>pr_name = ''Bench Press'', pr_timestamp = ''2024-05-17T10:00:00'',
          pr_input_weight = Some 100, pr_input_unit = Some ''kg'', pr_reps = 5,
          pr_e1rm = 350 / 3\<rparr>,
        \<lparr>pr_name = ''Bench Press'', pr_timestamp = ''2024-05-17T10:00:00'',
          pr_input_weight = Some 100, pr_input_unit = Some ''kg'', pr_reps = 5,
          pr_e1rm = 350 / 3\<rparr>]"
  by (simp add: prs_eval)

text \<open>The example of the specification: of 80 kg for 10 reps and 100 kg for 3 reps, the second.\<close>

lemma cmd_prs_example:
  "cmd_prs prs_db
     = [\<lparr>pr_name = ''Bench Press'', pr_timestamp = ''2024-05-17T10:00:00'',
          pr_input_weight = Some 100, pr_input_unit = Some ''kg'', pr_reps = 3,
          pr_e1rm = 110\<rparr>]"
  by (simp add: prs_eval)

text \<open>
  C5, amended. In a store whose exercise ids and names are distinct (primary key and
  \<^verbatim>\<open>UNIQUE\<close>), for every exercise that has at least one set, all its sets having more
  than one rep, \<^verbatim>\<open>prs\<close> reports for that exercise exactly its sets whose estimate equals
  the largest estimate of the exercise, one line for each, in the order they were
  logged: at least one line, several under a tie, and each line shows that maximum.
\<close>

theorem cmd_prs_reports_maximal_sets:
  assumes "distinct (map ex_id (exercises conn))" and "distinct (map ex_name (exercises conn))"
    and "e \<in> set (exercises conn)" and "sets_of conn (ex_id e) \<noteq> []"
    and "\<forall>s \<in> set (sets_of conn (ex_id e)). 1 < reps s"
  shows "filter (\<lambda>r. pr_name r = ex_name e) (cmd_prs conn)
           = map (pr_row_of e)
               (filter (\<lambda>s. e1rm_of s = best_e1rm_of (sets_of conn (ex_id e)))
                       (sets_of conn (ex_id e)))
       \<and> filter (\<lambda>r. pr_name r = ex_name e) (cmd_prs conn) \<noteq> []
       \<and> (\<forall>r \<in> set (filter (\<lambda>r. pr_name r = ex_name e) (cmd_prs conn)).
             pr_e1rm r = best_e1rm_of (sets_of conn (ex_id e)))"
proof -
  let ?ss = "sets_of conn (ex_id e)"
  let ?best = "best_e1rm_of ?ss"
  have mx: "sql_max (map sql_e1rm ?ss) = Some ?best"
    using assms(4,5) by (intro summary_best_e1rm_many_reps) auto
  have "filter (\<lambda>s. sql_max (map sql_e1rm ?ss) = Some (sql_e1rm s)) ?ss
      = filter (\<lambda>s. e1rm_of s = ?best) ?ss"
    using assms(5) by (intro filter_cong) (auto simp: mx sql_e1rm_epley)
  with cmd_prs_rows_of_exercise [OF assms(1-3)]
  have rows: "filter (\<lambda>r. pr_name r = ex_name e) (cmd_prs conn)
                = map (pr_row_of e) (filter (\<lambda>s. e1rm_of s = ?best) ?ss)"
    by simp
  have "?best \<in> set (map e1rm_of ?ss)"
    unfolding best_e1rm_of_def using assms(4) by (intro Max_in) auto
  then obtain s where "s \<in> set ?ss" "e1rm_of s = ?best" by auto
  then have ne: "filter (\<lambda>s. e1rm_of s = ?best) ?ss \<noteq> []"
    by (auto simp: filter_empty_conv)
  have "pr_e1rm (pr_row_of e s) = ?best" if "s \<in> set ?ss" "e1rm_of s = ?best" for s
    using that assms(5) by (simp add: pr_row_of_def sql_e1rm_epley)
  with rows ne show ?thesis by auto
qed

theorem cmd_prs_reports_maximal_sets_witness:
  "filter (\<lambda>r. pr_name r = ''Bench Press'') (cmd_prs prs_db)
     = [\<lparr>pr_name = ''Bench Press'', pr_timestamp = ''2024-05-17T10:00:00'',
          pr_input_weight = Some 100, pr_input_unit = Some ''kg'', pr_reps = 3,
          pr_e1rm = 110\<rparr>]"
proof -
  let ?e = "\<lparr>ex_id = 1, ex_name = ''Bench Press'', primary_muscle = Some ''Chest'',
              secondary_muscles = None\<rparr>"
  have h: "distinct (map ex_id (exercises prs_db))" "distinct (map ex_name (exercises prs_db))"
      "?e \<in> set (exercises prs_db)" "sets_of prs_db (ex_id ?e) \<noteq> []"
      "\<forall>s \<in> set (sets_of prs_db (ex_id ?e)). 1 < reps s"
    by (simp_all add: sets_of_def)
  have best: "best_e1rm_of (sets_of prs_db (ex_id ?e)) = 110"
    by (simp add: best_e1rm_of_def sets_of_def e1rm_of_def epley_e1rm_def)
  from cmd_prs_reports_maximal_sets [OF h]
  have "filter (\<lambda>r. pr_name r = ex_name ?e) (cmd_prs prs_db)
           = map (pr_row_of ?e)
               (filter (\<lambda>s. e1rm_of s = best_e1rm_of (sets_of prs_db (ex_id ?e)))
                       (sets_of prs_db (ex_id ?e)))"
    by blast
  then show ?thesis
    unfolding best
    by (simp add: sets_of_def e1rm_of_def epley_e1rm_def pr_row_of_def sql_e1rm_def)
qed

text \<open>
  Sets of one rep are outside the amended claim. There \<^verbatim>\<open>prs\<close> ranks by the SQL
  expression as well: of 100 kg for 1 rep (\<^verbatim>\<open>epley_e1rm\<close> 100, SQL value 310/3) and 88 kg
  for 5 reps (308/3 for both) it reports the first, while the largest \<^verbatim>\<open>epley_e1rm\<close> is
  that of the second.
\<close>

lemma cmd_prs_single_rep_example:
  "map pr_reps (cmd_prs (bench_db\<lparr>workouts := [workout_17],
      sets := [bench_set 1 100 1, bench_set 2 88 5]\<rparr>)) = [1]
   \<and> best_e1rm_of [bench_set 1 100 1, bench_set 2 88 5] = e1rm_of (bench_set 2 88 5)
   \<and> e1rm_of (bench_set 1 100 1) < e1rm_of (bench_set 2 88 5)"
  by (simp add: prs_eval best_e1rm_of_def e1rm_of_def epley_e1rm_def)

end
